theory Spec2Isabelle
  imports Complex_Main
begin

section \<open>The economic dashboard: series generator, risk classifier, country list\<close>

text \<open>
  A shallow embedding of \<^verbatim>\<open>simplified-dashboard.py\<close>: the functions
  \<^verbatim>\<open>get_countries\<close>, \<^verbatim>\<open>get_sample_data\<close>, \<^verbatim>\<open>calculate_risk_score\<close>,
  \<^verbatim>\<open>risk_analysis\<close> and \<^verbatim>\<open>generate_outlook\<close>.

  Conventions of the embedding.
  \<^item> A Python \<^verbatim>\<open>int\<close> is an \<open>int\<close>; a list index or an exponent that the code
    only ever produces non-negative is a \<open>nat\<close>.
  \<^item> A Python \<^verbatim>\<open>float\<close> is a \<open>pyfloat\<close>: the real number it stands for, or one of
    \<^verbatim>\<open>inf\<close>, \<^verbatim>\<open>-inf\<close>, \<^verbatim>\<open>nan\<close>. A product or sum of finite values is the exact
    product or sum when that lies in the binary64 range and \<^verbatim>\<open>inf\<close> or \<^verbatim>\<open>-inf\<close> when it
    does not; the power \<^verbatim>\<open>x ** i\<close> raises \<^verbatim>\<open>OverflowError\<close> instead. The rounding of
    binary64 arithmetic is not part of these operations; it is defined on its own
    (\<open>round_b64\<close>), with the smoothing loop on rounded arithmetic, to show where a
    property needs the exact operations.
  \<^item> An exception is a value of \<open>py_error\<close>; a function that can raise returns
    \<open>py_error + 'a\<close>, with \<open>Inl\<close> for the exception.
  \<^item> The global generator behind \<^verbatim>\<open>np.random\<close> is an explicit state \<open>'g\<close>; the two
    samplers the program calls are parameters (a record \<open>np_random\<close>), each taking
    the state and returning the drawn value with the next state.
\<close>

subsection \<open>Exceptions\<close>

datatype py_error =
    OverflowError
  | ValueError
  | IndexError
  | KeyError
  | TypeError
  | ConnectionError
  | JSONDecodeError

subsection \<open>Strings: the operator \<^verbatim>\<open>in\<close>, and \<^verbatim>\<open>lower\<close>\<close>

text \<open>\<open>startswith s sub\<close> is \<^verbatim>\<open>s.startswith(sub)\<close>.\<close>

fun startswith :: "string \<Rightarrow> string \<Rightarrow> bool" where
  "startswith s [] = True"
| "startswith [] (c # cs) = False"
| "startswith (d # ds) (c # cs) = (d = c \<and> startswith ds cs)"

text \<open>
  \<open>str_contains sub s\<close> is \<^verbatim>\<open>sub in s\<close> on two strings: some position of \<open>s\<close>
  starts a copy of \<open>sub\<close>. The comparison is character by character, so it
  distinguishes upper and lower case.
\<close>

fun str_contains :: "string \<Rightarrow> string \<Rightarrow> bool" where
  "str_contains sub [] = (sub = [])"
| "str_contains sub (d # ds) = (startswith (d # ds) sub \<or> str_contains sub ds)"

text \<open>\<^verbatim>\<open>str.lower\<close> on ASCII text, as \<^verbatim>\<open>run_dashboard\<close> uses it to pick a number format.\<close>

definition lower_char :: "char \<Rightarrow> char" where
  "lower_char c =
     (if 65 \<le> (of_char c :: nat) \<and> (of_char c :: nat) \<le> 90
      then char_of ((of_char c :: nat) + 32) else c)"

definition lower :: "string \<Rightarrow> string" where
  "lower s = map lower_char s"

subsection \<open>Integers and floats\<close>

text \<open>\<^verbatim>\<open>list(range(a, b))\<close>: the integers from \<open>a\<close> up to \<open>b - 1\<close>, none when \<open>b \<le> a\<close>.\<close>

definition py_range :: "int \<Rightarrow> int \<Rightarrow> int list" where
  "py_range a b = [a..b - 1]"

text \<open>
  Floats. The finite binary64 numbers are below \<open>2 ^ 1024\<close> in magnitude.
\<close>

datatype pyfloat = Fin real | PInf | NInf | NaN

definition float_overflow_bound :: real where
  "float_overflow_bound = 2 ^ 1024"

text \<open>The float that an operation returns when its exact result is \<open>r\<close>.\<close>

definition float_result :: "real \<Rightarrow> pyfloat" where
  "float_result r =
     (if float_overflow_bound \<le> r then PInf
      else if r \<le> - float_overflow_bound then NInf
      else Fin r)"

text \<open>\<^verbatim>\<open>x * y\<close> and \<^verbatim>\<open>x + y\<close> on floats, with the IEEE rules for the special values.\<close>

fun float_mul :: "pyfloat \<Rightarrow> pyfloat \<Rightarrow> pyfloat" where
  "float_mul (Fin a) (Fin b) = float_result (a * b)"
| "float_mul NaN y = NaN"
| "float_mul x NaN = NaN"
| "float_mul (Fin a) PInf = (if 0 < a then PInf else if a < 0 then NInf else NaN)"
| "float_mul (Fin a) NInf = (if 0 < a then NInf else if a < 0 then PInf else NaN)"
| "float_mul PInf (Fin b) = (if 0 < b then PInf else if b < 0 then NInf else NaN)"
| "float_mul NInf (Fin b) = (if 0 < b then NInf else if b < 0 then PInf else NaN)"
| "float_mul PInf PInf = PInf"
| "float_mul PInf NInf = NInf"
| "float_mul NInf PInf = NInf"
| "float_mul NInf NInf = PInf"

fun float_add :: "pyfloat \<Rightarrow> pyfloat \<Rightarrow> pyfloat" where
  "float_add (Fin a) (Fin b) = float_result (a + b)"
| "float_add NaN y = NaN"
| "float_add x NaN = NaN"
| "float_add (Fin a) PInf = PInf"
| "float_add (Fin a) NInf = NInf"
| "float_add PInf (Fin b) = PInf"
| "float_add NInf (Fin b) = NInf"
| "float_add PInf PInf = PInf"
| "float_add NInf NInf = NInf"
| "float_add PInf NInf = NaN"
| "float_add NInf PInf = NaN"

text \<open>
  \<^verbatim>\<open>x ** i\<close> for a finite float \<open>x\<close> and an integer \<open>i \<ge> 0\<close>. Unlike the product,
  the power does not return \<^verbatim>\<open>inf\<close>: CPython raises \<^verbatim>\<open>OverflowError\<close> when the result
  is out of the binary64 range. The program only raises \<open>1.03\<close> to a power, and no
  power of \<open>1.03\<close> is so close to \<open>2 ^ 1024\<close> that rounding would move it across.
\<close>

definition float_pow :: "real \<Rightarrow> nat \<Rightarrow> py_error + real" where
  "float_pow x i =
     (if \<bar>x ^ i\<bar> < float_overflow_bound then Inr (x ^ i) else Inl OverflowError)"

subsection \<open>The random source\<close>

text \<open>
  The two samplers of \<^verbatim>\<open>np.random\<close> that the program calls. Each takes its two
  parameters and the generator state and returns the value drawn, a finite float,
  with the next state.
\<close>

record 'g np_random =
  normal :: "real \<Rightarrow> real \<Rightarrow> 'g \<Rightarrow> real \<times> 'g"
  uniform :: "real \<Rightarrow> real \<Rightarrow> 'g \<Rightarrow> real \<times> 'g"

text \<open>
  \<^verbatim>\<open>[sample() for _ in years]\<close>: one draw per element of \<open>years\<close>, in order, each
  from the state the previous draw left.
\<close>

fun draw_each :: "('g \<Rightarrow> real \<times> 'g) \<Rightarrow> 'a list \<Rightarrow> 'g \<Rightarrow> real list \<times> 'g" where
  "draw_each sample [] g = ([], g)"
| "draw_each sample (y # ys) g =
     (let (v, g1) = sample g;
          (vs, g2) = draw_each sample ys g1
      in (v # vs, g2))"

text \<open>
  The generator state after \<open>i\<close> draws of \<open>sample\<close> from the state \<open>g\<close>, for stating
  what a sequence of draws returns.
\<close>

primrec state_after :: "('g \<Rightarrow> real \<times> 'g) \<Rightarrow> nat \<Rightarrow> 'g \<Rightarrow> 'g" where
  "state_after sample 0 g = g"
| "state_after sample (Suc i) g = state_after sample i (snd (sample g))"

subsection \<open>The series generator \<^verbatim>\<open>get_sample_data\<close>\<close>

text \<open>
  \<^verbatim>\<open>[base * (1 + 0.03) ** i for i, _ in enumerate(years)]\<close>: the elements are
  computed in order and the first power that overflows ends the comprehension with
  \<^verbatim>\<open>OverflowError\<close>. A product that overflows does not: it is \<^verbatim>\<open>inf\<close>.
\<close>

fun level_values :: "real \<Rightarrow> (nat \<times> int) list \<Rightarrow> py_error + pyfloat list" where
  "level_values base [] = Inr []"
| "level_values base ((i, y) # ps) =
     (case float_pow (1 + 0.03) i of
        Inl e \<Rightarrow> Inl e
      | Inr p \<Rightarrow>
          (case level_values base ps of
             Inl e \<Rightarrow> Inl e
           | Inr vs \<Rightarrow> Inr (float_mul (Fin base) (Fin p) # vs)))"

text \<open>The \<^verbatim>\<open>if\<close>/\<^verbatim>\<open>elif\<close>/\<^verbatim>\<open>else\<close> that fills \<^verbatim>\<open>values\<close> (lines 89 to 98).\<close>

definition raw_values ::
  "'g np_random \<Rightarrow> string \<Rightarrow> int list \<Rightarrow> 'g \<Rightarrow> (py_error + pyfloat list) \<times> 'g" where
  "raw_values rnd indicator years g =
     (if str_contains ''GDP'' indicator \<and> str_contains ''growth'' indicator then
        (let (vs, g1) = draw_each (normal rnd 3 1) years g in (Inr (map Fin vs), g1))
      else if str_contains ''Inflation'' indicator then
        (let (vs, g1) = draw_each (normal rnd 2.5 0.8) years g in (Inr (map Fin vs), g1))
      else
        (let base = (if str_contains ''GDP'' indicator then 1.0 else 200.0)
         in (level_values base (enumerate 0 years), g)))"

text \<open>
  One round of the smoothing loop, \<^verbatim>\<open>values[i] = 0.7 * values[i-1] + 0.3 * values[i]\<close>,
  and the loop \<^verbatim>\<open>for i in range(1, len(values))\<close>, which updates the list in place.
  Every index the loop reads or writes is in range.
\<close>

definition smooth_step :: "nat \<Rightarrow> pyfloat list \<Rightarrow> pyfloat list" where
  "smooth_step i values =
     values[i := float_add (float_mul (Fin 0.7) (values ! (i - 1)))
                           (float_mul (Fin 0.3) (values ! i))]"

definition smooth :: "pyfloat list \<Rightarrow> pyfloat list" where
  "smooth values = fold smooth_step [1..<length values] values"

text \<open>
  The same loop on binary64 arithmetic, for finite values whose products and sums
  stay in the binary64 range. \<open>round_b64 x\<close> is the binary64 number nearest to \<open>x\<close>,
  the one with the even significand when two are equally near: a number of
  magnitude in \<open>[2 ^ e, 2 ^ (e + 1))\<close> is rounded to a multiple of \<open>2 ^ (e - 52)\<close>, and
  \<open>e\<close> is not taken below \<open>- 1022\<close>. The literals \<^verbatim>\<open>0.7\<close> and \<^verbatim>\<open>0.3\<close> are rounded when
  they are read, and every product and every sum is rounded once.
\<close>

definition round_half_even :: "real \<Rightarrow> int" where
  "round_half_even q =
     (let f = \<lfloor>q\<rfloor> in
      if q - of_int f < 1 / 2 then f
      else if 1 / 2 < q - of_int f then f + 1
      else if even f then f else f + 1)"

definition pow2 :: "int \<Rightarrow> real" where
  "pow2 e = (if 0 \<le> e then 2 ^ nat e else 1 / 2 ^ nat (- e))"

definition b64_exponent :: "real \<Rightarrow> int" where
  "b64_exponent x = max \<lfloor>log 2 \<bar>x\<bar>\<rfloor> (- 1022)"

definition round_b64 :: "real \<Rightarrow> real" where
  "round_b64 x =
     (if x = 0 then 0
      else let u = pow2 (b64_exponent x - 52) in of_int (round_half_even (x / u)) * u)"

definition smooth_step_b64 :: "nat \<Rightarrow> real list \<Rightarrow> real list" where
  "smooth_step_b64 i values =
     values[i := round_b64 (round_b64 (round_b64 0.7 * values ! (i - 1)) +
                            round_b64 (round_b64 0.3 * values ! i))]"

definition smooth_b64 :: "real list \<Rightarrow> real list" where
  "smooth_b64 values = fold smooth_step_b64 [1..<length values] values"

text \<open>
  The result, \<^verbatim>\<open>pd.DataFrame({'year': years, 'value': values})\<close>: two columns. The
  constructor raises \<^verbatim>\<open>ValueError\<close> when the columns differ in length.
\<close>

record sample_frame =
  year_col :: "int list"
  value_col :: "pyfloat list"

definition DataFrame :: "int list \<Rightarrow> pyfloat list \<Rightarrow> py_error + sample_frame" where
  "DataFrame years values =
     (if length years = length values
      then Inr \<lparr>year_col = years, value_col = values\<rparr>
      else Inl ValueError)"

definition get_sample_data ::
  "'g np_random \<Rightarrow> string \<Rightarrow> int \<Rightarrow> int \<Rightarrow> 'g \<Rightarrow> (py_error + sample_frame) \<times> 'g" where
  "get_sample_data rnd indicator start_year end_year g =
     (let years = py_range start_year (end_year + 1) in
      case raw_values rnd indicator years g of
        (Inl e, g1) \<Rightarrow> (Inl e, g1)
      | (Inr values, g1) \<Rightarrow> (DataFrame years (smooth values), g1))"

subsection \<open>Risk score and risk classifier\<close>

text \<open>
  \<^verbatim>\<open>calculate_risk_score\<close> takes the generated series of every selected indicator,
  a dictionary from indicator name to frame, and returns
  \<^verbatim>\<open>np.random.uniform(2, 8)\<close>.
\<close>

definition calculate_risk_score ::
  "'g np_random \<Rightarrow> (string \<rightharpoonup> sample_frame) \<Rightarrow> 'g \<Rightarrow> real \<times> 'g" where
  "calculate_risk_score rnd indicators_data g = uniform rnd 2 8 g"

definition risk_analysis :: "real \<Rightarrow> string \<times> string" where
  "risk_analysis score =
     (if score \<ge> 7 then (''High Risk'', ''risk-high'')
      else if score \<ge> 4 then (''Medium Risk'', ''risk-medium'')
      else (''Low Risk'', ''risk-low''))"

definition generate_outlook :: "real \<Rightarrow> string" where
  "generate_outlook score =
     (if score \<ge> 7 then
        ''Economic conditions face significant headwinds. Policy intervention may be needed to stabilize growth and inflation.''
      else if score \<ge> 4 then
        ''Economic conditions show mixed signals with moderate risks. Careful monitoring recommended.''
      else
        ''Economic conditions appear favorable with positive outlook for sustained growth and stability.'')"

text \<open>
  The two functions once more, as steps of \<^verbatim>\<open>run_dashboard\<close>. A call in the program runs
  in the state of the global generator, which \<^verbatim>\<open>calculate_risk_score\<close> has just
  advanced; a step takes that state and returns it next to its result, so that a
  step is free, by its type, to read the state and to change it. The bodies of
  \<^verbatim>\<open>risk_analysis\<close> and \<^verbatim>\<open>generate_outlook\<close> do neither.
\<close>

definition risk_analysis_call :: "real \<Rightarrow> 'g \<Rightarrow> (string \<times> string) \<times> 'g" where
  "risk_analysis_call score g =
     (if score \<ge> 7 then ((''High Risk'', ''risk-high''), g)
      else if score \<ge> 4 then ((''Medium Risk'', ''risk-medium''), g)
      else ((''Low Risk'', ''risk-low''), g))"

definition generate_outlook_call :: "real \<Rightarrow> 'g \<Rightarrow> string \<times> 'g" where
  "generate_outlook_call score g =
     (if score \<ge> 7 then
        (''Economic conditions face significant headwinds. Policy intervention may be needed to stabilize growth and inflation.'', g)
      else if score \<ge> 4 then
        (''Economic conditions show mixed signals with moderate risks. Careful monitoring recommended.'', g)
      else
        (''Economic conditions appear favorable with positive outlook for sustained growth and stability.'', g))"

subsection \<open>The country list \<^verbatim>\<open>get_countries\<close>\<close>

text \<open>
  What \<^verbatim>\<open>response.json()\<close> can return: the Python value of a JSON text. A
  dictionary is the list of its items, with string keys, each key once.
\<close>

datatype json =
    JNull
  | JBool bool
  | JNum real
  | JStr string
  | JArr "json list"
  | JObj "(string \<times> json) list"

text \<open>
  The two calls that leave the program, \<^verbatim>\<open>requests.get(...)\<close> and
  \<^verbatim>\<open>response.json()\<close>: the request can fail, the body can fail to parse, or the
  body is a JSON value.
\<close>

datatype http_outcome =
    RequestFailed
  | BodyNotJson
  | Body json

text \<open>
  Subscription \<^verbatim>\<open>x[k]\<close> with the two kinds of key the function uses: the integer
  \<^verbatim>\<open>1\<close> and a string. A list takes integer indices only, a dictionary read from
  JSON has string keys only, a string yields the one-character string at the
  index, and \<^verbatim>\<open>None\<close>, a Boolean or a number cannot be subscripted.
\<close>

fun getitem_int :: "json \<Rightarrow> nat \<Rightarrow> py_error + json" where
  "getitem_int (JArr xs) i = (if i < length xs then Inr (xs ! i) else Inl IndexError)"
| "getitem_int (JStr s) i = (if i < length s then Inr (JStr [s ! i]) else Inl IndexError)"
| "getitem_int (JObj kvs) i = Inl KeyError"
| "getitem_int v i = Inl TypeError"

fun getitem_str :: "json \<Rightarrow> string \<Rightarrow> py_error + json" where
  "getitem_str (JObj kvs) k = (case map_of kvs k of None \<Rightarrow> Inl KeyError | Some v \<Rightarrow> Inr v)"
| "getitem_str v k = Inl TypeError"

text \<open>
  \<^verbatim>\<open>for country in x\<close>: a list yields its elements, a dictionary its keys, a string
  its characters; anything else is not iterable.
\<close>

fun py_iter :: "json \<Rightarrow> py_error + json list" where
  "py_iter (JArr xs) = Inr xs"
| "py_iter (JObj kvs) = Inr (map (\<lambda>kv. JStr (fst kv)) kvs)"
| "py_iter (JStr s) = Inr (map (\<lambda>c. JStr [c]) s)"
| "py_iter v = Inl TypeError"

record country_row =
  row_id :: json
  row_name :: json
  row_region :: json

text \<open>
  The body of the loop for one \<^verbatim>\<open>country\<close>: \<open>None\<close> when the entry is an aggregate
  and is skipped, the appended row otherwise. The subscriptions happen in the
  order of the source, and the first that raises ends the function's
  \<^verbatim>\<open>try\<close> block.
\<close>

definition country_entry :: "json \<Rightarrow> py_error + country_row option" where
  "country_entry country =
     (case getitem_str country ''region'' of
        Inl e \<Rightarrow> Inl e
      | Inr r \<Rightarrow>
     (case getitem_str r ''value'' of
        Inl e \<Rightarrow> Inl e
      | Inr v \<Rightarrow>
          if v \<noteq> JStr ''Aggregates'' then
            (case getitem_str country ''id'' of
               Inl e \<Rightarrow> Inl e
             | Inr i \<Rightarrow>
            (case getitem_str country ''name'' of
               Inl e \<Rightarrow> Inl e
             | Inr n \<Rightarrow>
            (case getitem_str country ''region'' of
               Inl e \<Rightarrow> Inl e
             | Inr r2 \<Rightarrow>
            (case getitem_str r2 ''value'' of
               Inl e \<Rightarrow> Inl e
             | Inr v2 \<Rightarrow> Inr (Some \<lparr>row_id = i, row_name = n, row_region = v2\<rparr>)))))
          else Inr None))"

fun collect_countries :: "json list \<Rightarrow> country_row list \<Rightarrow> py_error + country_row list" where
  "collect_countries [] countries = Inr countries"
| "collect_countries (c # cs) countries =
     (case country_entry c of
        Inl e \<Rightarrow> Inl e
      | Inr None \<Rightarrow> collect_countries cs countries
      | Inr (Some row) \<Rightarrow> collect_countries cs (countries @ [row]))"

text \<open>The \<^verbatim>\<open>try\<close> block of \<^verbatim>\<open>get_countries\<close>.\<close>

definition get_countries_try :: "http_outcome \<Rightarrow> py_error + country_row list" where
  "get_countries_try outcome =
     (case outcome of
        RequestFailed \<Rightarrow> Inl ConnectionError
      | BodyNotJson \<Rightarrow> Inl JSONDecodeError
      | Body data \<Rightarrow>
          (case getitem_int data 1 of
             Inl e \<Rightarrow> Inl e
           | Inr entries \<Rightarrow>
               (case py_iter entries of
                  Inl e \<Rightarrow> Inl e
                | Inr cs \<Rightarrow> collect_countries cs [])))"

definition fallback_countries :: "country_row list" where
  "fallback_countries =
     [\<lparr>row_id = JStr ''USA'', row_name = JStr ''United States'', row_region = JStr ''North America''\<rparr>,
      \<lparr>row_id = JStr ''GBR'', row_name = JStr ''United Kingdom'', row_region = JStr ''Europe & Central Asia''\<rparr>,
      \<lparr>row_id = JStr ''JPN'', row_name = JStr ''Japan'', row_region = JStr ''East Asia & Pacific''\<rparr>,
      \<lparr>row_id = JStr ''DEU'', row_name = JStr ''Germany'', row_region = JStr ''Europe & Central Asia''\<rparr>,
      \<lparr>row_id = JStr ''IND'', row_name = JStr ''India'', row_region = JStr ''South Asia''\<rparr>]"

text \<open>
  \<^verbatim>\<open>get_countries\<close> with its handler \<^verbatim>\<open>except Exception as e\<close>: the result is the
  frame the function returns together with the exception that \<^verbatim>\<open>st.error\<close> reported
  on the page, if any. Nothing is raised to the caller.
\<close>

record countries_result =
  reported :: "py_error option"
  frame :: "country_row list"

definition get_countries :: "http_outcome \<Rightarrow> countries_result" where
  "get_countries outcome =
     (case get_countries_try outcome of
        Inr countries \<Rightarrow> \<lparr>reported = None, frame = countries\<rparr>
      | Inl e \<Rightarrow> \<lparr>reported = Some e, frame = fallback_countries\<rparr>)"

text \<open>
  The shape \<^verbatim>\<open>{id, name, region: {value}}\<close> that the loop expects of an entry, as far as
  the loop reads it: an object whose \<^verbatim>\<open>region\<close> is an object with a \<^verbatim>\<open>value\<close>, and which
  has an \<^verbatim>\<open>id\<close> and a \<^verbatim>\<open>name\<close> unless the value is \<^verbatim>\<open>Aggregates\<close>. The types of the
  values under \<^verbatim>\<open>id\<close>, \<^verbatim>\<open>name\<close> and \<^verbatim>\<open>value\<close> are not part of it.
\<close>

definition readable_entry :: "json \<Rightarrow> bool" where
  "readable_entry c =
     (case c of
        JObj kvs \<Rightarrow>
          (case map_of kvs ''region'' of
             Some (JObj r) \<Rightarrow>
               (case map_of r ''value'' of
                  Some v \<Rightarrow>
                    v = JStr ''Aggregates'' \<or>
                    (map_of kvs ''id'' \<noteq> None \<and> map_of kvs ''name'' \<noteq> None)
                | None \<Rightarrow> False)
           | _ \<Rightarrow> False)
      | _ \<Rightarrow> False)"

subsection \<open>Inputs to run the model on\<close>

text \<open>
  A deterministic stand-in for \<^verbatim>\<open>np.random\<close>, with a counter as its state, on which
  the functions above can be evaluated: \<open>normal\<close> steps through
  \<open>mu - sigma, mu - sigma / 2, mu, mu + sigma / 2, mu + sigma\<close> and \<open>uniform\<close>
  through ten points of \<open>[lo, hi)\<close>.
\<close>

definition counter_random :: "nat np_random" where
  "counter_random =
     \<lparr>normal = (\<lambda>mu sigma g. (mu + sigma * (real (g mod 5) - 2) / 2, Suc g)),
      uniform = (\<lambda>lo hi g. (lo + (hi - lo) * real (g mod 10) / 10, Suc g))\<rparr>"

text \<open>
  Bodies of the kind the country endpoint sends: the paging record that comes first,
  a country, an aggregate, an entry whose fields have the wrong types, and an entry
  that lacks its \<^verbatim>\<open>region\<close>.
\<close>

definition sample_page :: json where
  "sample_page = JObj [(''page'', JNum 1), (''pages'', JNum 1), (''total'', JNum 3)]"

definition sample_japan :: json where
  "sample_japan =
     JObj [(''id'', JStr ''JPN''), (''iso2Code'', JStr ''JP''), (''name'', JStr ''Japan''),
           (''region'', JObj [(''id'', JStr ''EAS''), (''value'', JStr ''East Asia & Pacific'')])]"

definition sample_world :: json where
  "sample_world =
     JObj [(''id'', JStr ''WLD''), (''name'', JStr ''World''),
           (''region'', JObj [(''id'', JStr ''NA''), (''value'', JStr ''Aggregates'')])]"

definition sample_wrong_types :: json where
  "sample_wrong_types =
     JObj [(''id'', JNum 7), (''name'', JNull), (''region'', JObj [(''value'', JArr [])])]"

definition sample_no_region :: json where
  "sample_no_region = JObj [(''id'', JStr ''XKX''), (''name'', JStr ''Kosovo'')]"


section \<open>Properties\<close>

subsection \<open>Substrings\<close>

text \<open>\<open>str_contains\<close> is the substring relation: \<open>sub\<close> occurs in \<open>s\<close> as a block.\<close>

lemma startswith_iff: "startswith s sub \<longleftrightarrow> (\<exists>q. s = sub @ q)"
  by (induction s sub rule: startswith.induct) auto

lemma str_contains_iff: "str_contains sub s \<longleftrightarrow> (\<exists>p q. s = p @ sub @ q)"
proof (induction s)
  case Nil
  then show ?case by auto
next
  case (Cons d ds)
  show ?case
  proof
    assume "str_contains sub (d # ds)"
    then consider "startswith (d # ds) sub" | "str_contains sub ds" by auto
    then show "\<exists>p q. d # ds = p @ sub @ q"
    proof cases
      case 1
      then obtain q where "d # ds = sub @ q" by (auto simp: startswith_iff)
      then have "d # ds = [] @ sub @ q" by simp
      then show ?thesis by blast
    next
      case 2
      then obtain p q where "ds = p @ sub @ q" using Cons.IH by auto
      then have "d # ds = (d # p) @ sub @ q" by simp
      then show ?thesis by blast
    qed
  next
    assume "\<exists>p q. d # ds = p @ sub @ q"
    then obtain p q where pq: "d # ds = p @ sub @ q" by blast
    show "str_contains sub (d # ds)"
    proof (cases p)
      case Nil
      then have "startswith (d # ds) sub" using pq by (auto simp: startswith_iff)
      then show ?thesis by simp
    next
      case (Cons a p')
      then have "ds = p' @ sub @ q" using pq by simp
      then have "str_contains sub ds" using Cons.IH by blast
      then show ?thesis by simp
    qed
  qed
qed

subsection \<open>Float operations\<close>

lemma float_overflow_bound_pos: "0 < float_overflow_bound"
  by (simp add: float_overflow_bound_def)

lemma float_result_in_range:
  "\<bar>r\<bar> < float_overflow_bound \<Longrightarrow> float_result r = Fin r"
  by (simp add: float_result_def abs_less_iff)

lemma float_result_nonneg:
  "0 \<le> r \<Longrightarrow> float_result r = (if r < float_overflow_bound then Fin r else PInf)"
  using float_overflow_bound_pos by (simp add: float_result_def)

subsection \<open>The smoothing loop\<close>

text \<open>
  The invariant of the loop after the rounds \<open>1, \<dots>, k - 1\<close>: the list keeps its
  length, the positions from \<open>k\<close> on still hold the raw values, position \<open>0\<close> is
  untouched, and every position below \<open>k\<close> satisfies the recurrence.
\<close>

lemma fold_update_inv:
  fixes F :: "'a \<Rightarrow> 'a \<Rightarrow> 'a" and step :: "nat \<Rightarrow> 'a list \<Rightarrow> 'a list"
  assumes step: "\<And>i vs. step i vs = vs[i := F (vs ! (i - 1)) (vs ! i)]"
    and "k \<le> length vs"
  shows "length (fold step [1..<k] vs) = length vs \<and>
     (\<forall>j. k \<le> j \<longrightarrow> j < length vs \<longrightarrow> fold step [1..<k] vs ! j = vs ! j) \<and>
     (0 < length vs \<longrightarrow> fold step [1..<k] vs ! 0 = vs ! 0) \<and>
     (\<forall>j. 0 < j \<longrightarrow> j < k \<longrightarrow>
        fold step [1..<k] vs ! j = F (fold step [1..<k] vs ! (j - 1)) (vs ! j))"
  using assms(2)
proof (induction k)
  case 0
  then show ?case by simp
next
  case (Suc k)
  show ?case
  proof (cases "k = 0")
    case True
    then show ?thesis by simp
  next
    case False
    then have k1: "1 \<le> k" by simp
    have kl: "k < length vs" using Suc.prems by simp
    define xs where "xs = fold step [1..<k] vs"
    have len: "length xs = length vs"
      and keep: "\<And>j. k \<le> j \<Longrightarrow> j < length vs \<Longrightarrow> xs ! j = vs ! j"
      and first: "xs ! 0 = vs ! 0"
      and rec: "\<And>j. 0 < j \<Longrightarrow> j < k \<Longrightarrow> xs ! j = F (xs ! (j - 1)) (vs ! j)"
      using Suc.IH kl unfolding xs_def by auto
    have xk: "xs ! k = vs ! k" using keep kl by simp
    define v where "v = F (xs ! (k - 1)) (vs ! k)"
    have "[1..<Suc k] = [1..<k] @ [k]" using k1 by simp
    then have "fold step [1..<Suc k] vs = step k xs"
      by (simp only: fold_append xs_def fold_simps o_apply id_apply)
    then have new: "fold step [1..<Suc k] vs = xs[k := v]"
      by (simp only: step v_def xk)
    have c1: "length (fold step [1..<Suc k] vs) = length vs"
      by (simp only: new length_list_update len)
    have c2: "\<forall>j. Suc k \<le> j \<longrightarrow> j < length vs \<longrightarrow> fold step [1..<Suc k] vs ! j = vs ! j"
    proof (intro allI impI)
      fix j assume j: "Suc k \<le> j" "j < length vs"
      then have "xs[k := v] ! j = xs ! j" by simp
      also have "\<dots> = vs ! j" using keep j by simp
      finally show "fold step [1..<Suc k] vs ! j = vs ! j" by (simp only: new)
    qed
    have c3: "0 < length vs \<longrightarrow> fold step [1..<Suc k] vs ! 0 = vs ! 0"
    proof
      have "xs[k := v] ! 0 = xs ! 0" using k1 by simp
      then show "fold step [1..<Suc k] vs ! 0 = vs ! 0" by (simp only: new first)
    qed
    have c4: "\<forall>j. 0 < j \<longrightarrow> j < Suc k \<longrightarrow>
        fold step [1..<Suc k] vs ! j = F (fold step [1..<Suc k] vs ! (j - 1)) (vs ! j)"
    proof (intro allI impI)
      fix j assume j: "0 < j" "j < Suc k"
      show "fold step [1..<Suc k] vs ! j = F (fold step [1..<Suc k] vs ! (j - 1)) (vs ! j)"
      proof (cases "j = k")
        case True
        have a: "xs[k := v] ! k = v" using kl len by simp
        have b: "xs[k := v] ! (k - 1) = xs ! (k - 1)" using k1 by simp
        show ?thesis by (simp only: new True a b) (simp only: v_def)
      next
        case False
        then have jk: "j < k" using j by simp
        have a: "xs[k := v] ! j = xs ! j" using jk by simp
        have b: "xs[k := v] ! (j - 1) = xs ! (j - 1)" using jk by simp
        show ?thesis by (simp only: new a b rec [OF j(1) jk])
      qed
    qed
    show ?thesis using c1 c2 c3 c4 by blast
  qed
qed

lemma fold_smooth_step_inv:
  "k \<le> length vs \<Longrightarrow>
     length (fold smooth_step [1..<k] vs) = length vs \<and>
     (\<forall>j. k \<le> j \<longrightarrow> j < length vs \<longrightarrow> fold smooth_step [1..<k] vs ! j = vs ! j) \<and>
     (0 < length vs \<longrightarrow> fold smooth_step [1..<k] vs ! 0 = vs ! 0) \<and>
     (\<forall>j. 0 < j \<longrightarrow> j < k \<longrightarrow>
        fold smooth_step [1..<k] vs ! j =
          float_add (float_mul (Fin 0.7) (fold smooth_step [1..<k] vs ! (j - 1)))
                    (float_mul (Fin 0.3) (vs ! j)))"
proof -
  assume k: "k \<le> length vs"
  have st: "\<And>i vs. smooth_step i vs =
      vs[i := (\<lambda>p r. float_add (float_mul (Fin 0.7) p) (float_mul (Fin 0.3) r))
               (vs ! (i - 1)) (vs ! i)]"
    by (simp only: smooth_step_def)
  show ?thesis
    using fold_update_inv [of smooth_step
        "\<lambda>p r. float_add (float_mul (Fin 0.7) p) (float_mul (Fin 0.3) r)" k vs, OF st k]
    by simp
qed

lemma length_smooth: "length (smooth raw) = length raw"
  using fold_smooth_step_inv [of "length raw" raw] by (simp add: smooth_def)

lemma smooth_nth_0: "raw \<noteq> [] \<Longrightarrow> smooth raw ! 0 = raw ! 0"
  using fold_smooth_step_inv [of "length raw" raw] by (simp add: smooth_def)

lemma smooth_nth_rec:
  "0 < i \<Longrightarrow> i < length raw \<Longrightarrow>
     smooth raw ! i =
       float_add (float_mul (Fin 0.7) (smooth raw ! (i - 1))) (float_mul (Fin 0.3) (raw ! i))"
  using fold_smooth_step_inv [of "length raw" raw] by (simp add: smooth_def)


text \<open>
  On finite values in the binary64 range no product or sum of the loop leaves the
  range, so the smoothed values are finite, and each of them is the weighted mean,
  with weights \<open>0.7\<close> and \<open>0.3\<close>, of the smoothed value before it and a raw value.
\<close>

lemma weighted_mean_in_range:
  "\<bar>s\<bar> < float_overflow_bound \<Longrightarrow> \<bar>r\<bar> < float_overflow_bound \<Longrightarrow>
     float_add (float_mul (Fin 0.7) (Fin s)) (float_mul (Fin 0.3) (Fin r)) = Fin (0.7 * s + 0.3 * r)"
proof -
  assume s: "\<bar>s\<bar> < float_overflow_bound" and r: "\<bar>r\<bar> < float_overflow_bound"
  have a: "\<bar>0.7 * s\<bar> < float_overflow_bound" using s by (simp add: abs_mult)
  have b: "\<bar>0.3 * r\<bar> < float_overflow_bound" using r by (simp add: abs_mult)
  have "\<bar>0.7 * s + 0.3 * r\<bar> \<le> 0.7 * \<bar>s\<bar> + 0.3 * \<bar>r\<bar>" by (simp add: abs_mult)
  also have "\<dots> < float_overflow_bound" using s r by linarith
  finally have c: "\<bar>0.7 * s + 0.3 * r\<bar> < float_overflow_bound" .
  show ?thesis
    by (simp only: float_mul.simps float_add.simps float_result_in_range [OF a]
        float_result_in_range [OF b] float_result_in_range [OF c])
qed

lemma smooth_between:
  assumes "\<forall>r\<in>set rs. \<bar>r\<bar> < float_overflow_bound" and "i < length rs"
  shows "\<exists>s. smooth (map Fin rs) ! i = Fin s \<and>
     Min (set (take (Suc i) rs)) \<le> s \<and> s \<le> Max (set (take (Suc i) rs))"
  using assms(2)
proof (induction i)
  case 0
  then have ne: "rs \<noteq> []" by auto
  then have "take (Suc 0) rs = [rs ! 0]" by (cases rs) simp_all
  moreover have "smooth (map Fin rs) ! 0 = Fin (rs ! 0)"
    using smooth_nth_0 [of "map Fin rs"] ne 0 by simp
  ultimately show ?case by simp
next
  case (Suc i)
  let ?A = "set (take (Suc i) rs)" and ?B = "set (take (Suc (Suc i)) rs)"
  have il: "i < length rs" using Suc.prems by simp
  obtain s where s: "smooth (map Fin rs) ! i = Fin s" "Min ?A \<le> s" "s \<le> Max ?A"
    using Suc.IH il by blast
  have B: "?B = insert (rs ! Suc i) ?A"
    using Suc.prems by (simp add: take_Suc_conv_app_nth [of "Suc i"])
  have ne: "?A \<noteq> {}" using il by (cases rs) simp_all
  have lo: "Min ?B \<le> Min ?A" "Min ?B \<le> rs ! Suc i"
    and hi: "Max ?A \<le> Max ?B" "rs ! Suc i \<le> Max ?B"
    using ne by (simp_all add: B)
  have "Min ?A \<in> ?A" "Max ?A \<in> ?A" using ne by simp_all
  then have "Min ?A \<in> set rs" "Max ?A \<in> set rs" by (auto dest: in_set_takeD)
  then have "\<bar>Min ?A\<bar> < float_overflow_bound" "\<bar>Max ?A\<bar> < float_overflow_bound"
    using assms(1) by blast+
  then have sr: "\<bar>s\<bar> < float_overflow_bound" using s(2,3) by linarith
  have rr: "\<bar>rs ! Suc i\<bar> < float_overflow_bound" using assms(1) Suc.prems by simp
  have "smooth (map Fin rs) ! Suc i =
      float_add (float_mul (Fin 0.7) (Fin s)) (float_mul (Fin 0.3) (Fin (rs ! Suc i)))"
    using smooth_nth_rec [of "Suc i" "map Fin rs"] Suc.prems s(1) by simp
  then have rec: "smooth (map Fin rs) ! Suc i = Fin (0.7 * s + 0.3 * rs ! Suc i)"
    by (simp only: weighted_mean_in_range [OF sr rr])
  have "Min ?B \<le> 0.7 * s + 0.3 * rs ! Suc i" "0.7 * s + 0.3 * rs ! Suc i \<le> Max ?B"
    using lo hi s(2,3) by linarith+
  then show ?case using rec by blast
qed


lemma smooth_curve:
  assumes "0 < base" and "base * 1.03 ^ (n - 1) < float_overflow_bound" and "i < n"
  shows "\<exists>s. smooth (map (\<lambda>k. Fin (base * 1.03 ^ k)) [0..<n]) ! i = Fin s \<and>
     0 < s \<and> s \<le> base * 1.03 ^ i"
  using assms(3)
proof (induction i)
  case 0
  then show ?case
    using smooth_nth_0 [of "map (\<lambda>k. Fin (base * 1.03 ^ k)) [0..<n]"] assms(1) by auto
next
  case (Suc i)
  let ?raw = "map (\<lambda>k. Fin (base * 1.03 ^ k)) [0..<n]"
  obtain s where s: "smooth ?raw ! i = Fin s" "0 < s" "s \<le> base * 1.03 ^ i"
    using Suc by auto
  have mono: "base * 1.03 ^ i \<le> base * 1.03 ^ Suc i" using assms(1) by simp
  have "(1.03::real) ^ Suc i \<le> 1.03 ^ (n - 1)"
    using Suc.prems by (intro power_increasing) simp_all
  then have "base * 1.03 ^ Suc i \<le> base * 1.03 ^ (n - 1)"
    using assms(1) by simp
  then have top: "base * 1.03 ^ Suc i < float_overflow_bound" using assms(2) by linarith
  have pos: "0 < base * 1.03 ^ Suc i" using assms(1) by simp
  have sr: "\<bar>s\<bar> < float_overflow_bound" using s(2,3) mono top by linarith
  have rr: "\<bar>base * 1.03 ^ Suc i\<bar> < float_overflow_bound" using pos top by linarith
  have "smooth ?raw ! Suc i =
      float_add (float_mul (Fin 0.7) (Fin s)) (float_mul (Fin 0.3) (Fin (base * 1.03 ^ Suc i)))"
    using smooth_nth_rec [of "Suc i" ?raw] Suc.prems s(1) by simp
  then have rec: "smooth ?raw ! Suc i = Fin (0.7 * s + 0.3 * (base * 1.03 ^ Suc i))"
    by (simp only: weighted_mean_in_range [OF sr rr])
  have "0 < 0.7 * s + 0.3 * (base * 1.03 ^ Suc i)"
    "0.7 * s + 0.3 * (base * 1.03 ^ Suc i) \<le> base * 1.03 ^ Suc i"
    using s(2,3) mono pos by linarith+
  then show ?case using rec by blast
qed

lemma smooth_curve_increasing:
  assumes "0 < base" and "base * 1.03 ^ (n - 1) < float_overflow_bound" and "Suc i < n"
  shows "\<exists>s t. smooth (map (\<lambda>k. Fin (base * 1.03 ^ k)) [0..<n]) ! i = Fin s \<and>
     smooth (map (\<lambda>k. Fin (base * 1.03 ^ k)) [0..<n]) ! Suc i = Fin t \<and> s < t"
proof -
  let ?raw = "map (\<lambda>k. Fin (base * 1.03 ^ k)) [0..<n]"
  obtain s where s: "smooth ?raw ! i = Fin s" "0 < s" "s \<le> base * 1.03 ^ i"
    using smooth_curve [OF assms(1,2), of i] assms(3) by auto
  have lt: "base * 1.03 ^ i < base * 1.03 ^ Suc i" using assms(1) by simp
  have "(1.03::real) ^ Suc i \<le> 1.03 ^ (n - 1)"
    using assms(3) by (intro power_increasing) simp_all
  then have "base * 1.03 ^ Suc i \<le> base * 1.03 ^ (n - 1)"
    using assms(1) by simp
  then have top: "base * 1.03 ^ Suc i < float_overflow_bound" using assms(2) by linarith
  have sr: "\<bar>s\<bar> < float_overflow_bound" using s(2,3) lt top by linarith
  have rr: "\<bar>base * 1.03 ^ Suc i\<bar> < float_overflow_bound" using lt s(2,3) top by linarith
  have "smooth ?raw ! Suc i =
      float_add (float_mul (Fin 0.7) (Fin s)) (float_mul (Fin 0.3) (Fin (base * 1.03 ^ Suc i)))"
    using smooth_nth_rec [of "Suc i" ?raw] assms(3) s(1) by simp
  then have rec: "smooth ?raw ! Suc i = Fin (0.7 * s + 0.3 * (base * 1.03 ^ Suc i))"
    by (simp only: weighted_mean_in_range [OF sr rr])
  have "s < 0.7 * s + 0.3 * (base * 1.03 ^ Suc i)" using s(3) lt by linarith
  then show ?thesis using s(1) rec by blast
qed

subsection \<open>Ranges, draws and the compounding curve\<close>

lemma length_py_range: "length (py_range a b) = nat (b - a)"
  by (simp add: py_range_def)

lemma nth_py_range: "i < nat (b - a) \<Longrightarrow> py_range a b ! i = a + int i"
  by (simp add: py_range_def)

lemma draw_each_eq:
  "draw_each f ys g =
     (map (\<lambda>i. fst (f (state_after f i g))) [0..<length ys], state_after f (length ys) g)"
proof (induction ys arbitrary: g)
  case Nil
  then show ?case by simp
next
  case (Cons y ys)
  have shift: "map (\<lambda>i. fst (f (state_after f i g))) [0..<Suc (length ys)] =
      fst (f g) # map (\<lambda>i. fst (f (state_after f i (snd (f g))))) [0..<length ys]"
    by (simp only: upt_conv_Cons [of 0] zero_less_Suc list.map map_Suc_upt [symmetric] map_map
        o_def state_after.simps)
  show ?case
    by (simp add: Cons.IH split_beta shift del: upt_Suc)
qed

lemma level_values_enumerate:
  "level_values base (enumerate k ys) =
     (if \<forall>i<length ys. \<bar>(1.03::real) ^ (k + i)\<bar> < float_overflow_bound
      then Inr (map (\<lambda>i. float_result (base * 1.03 ^ i)) [k..<k + length ys])
      else Inl OverflowError)"
proof (induction ys arbitrary: k)
  case Nil
  then show ?case by simp
next
  case (Cons y ys)
  have all_Suc: "(\<forall>i<Suc (length ys). \<bar>(1.03::real) ^ (k + i)\<bar> < float_overflow_bound) \<longleftrightarrow>
      \<bar>(1.03::real) ^ k\<bar> < float_overflow_bound \<and>
      (\<forall>i<length ys. \<bar>(1.03::real) ^ (Suc k + i)\<bar> < float_overflow_bound)"
    by (auto simp: less_Suc_eq_0_disj)
  have one: "(1::real) + 0.03 = 1.03" by simp
  show ?case
    unfolding enumerate_simps level_values.simps float_pow_def one Cons.IH all_Suc length_Cons
      float_mul.simps
    by (simp add: upt_conv_Cons del: upt_Suc power_Suc)
qed

lemma pow_103_24: "(2::real) \<le> 1.03 ^ 24"
  by (simp add: power_divide)

lemma pow_103_overflow: "24576 \<le> n \<Longrightarrow> float_overflow_bound \<le> 1.03 ^ n"
proof -
  assume n: "24576 \<le> n"
  have "(2::real) ^ 1024 \<le> (1.03 ^ 24) ^ 1024"
    using pow_103_24 by (intro power_mono) simp_all
  also have "\<dots> = 1.03 ^ (24 * 1024)" by (simp only: power_mult)
  also have "\<dots> \<le> 1.03 ^ n" using n by (intro power_increasing) simp_all
  finally show ?thesis by (simp only: float_overflow_bound_def)
qed

lemma pow_103_in_range_mono:
  "(1.03::real) ^ n < float_overflow_bound \<Longrightarrow> i \<le> n \<Longrightarrow> \<bar>(1.03::real) ^ i\<bar> < float_overflow_bound"
proof -
  assume a: "(1.03::real) ^ n < float_overflow_bound" and i: "i \<le> n"
  have "(1.03::real) ^ i \<le> 1.03 ^ n" using i by (intro power_increasing) simp_all
  moreover have "\<bar>(1.03::real) ^ i\<bar> = 1.03 ^ i" by simp
  ultimately show ?thesis using a by linarith
qed

lemma in_range_all:
  "(\<forall>i<n. \<bar>(1.03::real) ^ i\<bar> < float_overflow_bound) \<longleftrightarrow>
     (n = 0 \<or> (1.03::real) ^ (n - 1) < float_overflow_bound)"
proof (cases n)
  case 0
  then show ?thesis by simp
next
  case (Suc m)
  have "\<bar>(1.03::real) ^ m\<bar> = 1.03 ^ m" by simp
  then show ?thesis
    using Suc pow_103_in_range_mono [of m] by (auto simp: less_Suc_eq_le)
qed

lemma level_values_years:
  "level_values base (enumerate 0 years) =
     (if years = [] \<or> (1.03::real) ^ (length years - 1) < float_overflow_bound
      then Inr (map (\<lambda>i. float_result (base * 1.03 ^ i)) [0..<length years])
      else Inl OverflowError)"
  using level_values_enumerate [of base 0 years] in_range_all [of "length years"]
  by simp

lemma raw_values_growth:
  "str_contains ''GDP'' indicator \<Longrightarrow> str_contains ''growth'' indicator \<Longrightarrow>
     raw_values rnd indicator years g =
       (Inr (map (\<lambda>i. Fin (fst (normal rnd 3 1 (state_after (normal rnd 3 1) i g))))
              [0..<length years]),
        state_after (normal rnd 3 1) (length years) g)"
  by (simp add: raw_values_def draw_each_eq o_def)

lemma raw_values_inflation:
  "\<not> (str_contains ''GDP'' indicator \<and> str_contains ''growth'' indicator) \<Longrightarrow>
   str_contains ''Inflation'' indicator \<Longrightarrow>
     raw_values rnd indicator years g =
       (Inr (map (\<lambda>i. Fin (fst (normal rnd 2.5 0.8 (state_after (normal rnd 2.5 0.8) i g))))
              [0..<length years]),
        state_after (normal rnd 2.5 0.8) (length years) g)"
  unfolding raw_values_def draw_each_eq
  by (simp only: if_False if_True split_conv Let_def map_map o_def)

lemma raw_values_level:
  "\<not> (str_contains ''GDP'' indicator \<and> str_contains ''growth'' indicator) \<Longrightarrow>
   \<not> str_contains ''Inflation'' indicator \<Longrightarrow>
     raw_values rnd indicator years g =
       (level_values (if str_contains ''GDP'' indicator then 1 else 200) (enumerate 0 years), g)"
  by (simp add: raw_values_def)

lemma raw_values_length:
  "raw_values rnd indicator years g = (Inr raw, g1) \<Longrightarrow> length raw = length years"
  by (auto simp: raw_values_def draw_each_eq level_values_years split: if_splits)

lemma get_sample_data_success:
  "raw_values rnd indicator (py_range start_year (end_year + 1)) g = (Inr raw, g1) \<Longrightarrow>
     get_sample_data rnd indicator start_year end_year g =
       (Inr \<lparr>year_col = py_range start_year (end_year + 1), value_col = smooth raw\<rparr>, g1)"
  using raw_values_length [of rnd indicator "py_range start_year (end_year + 1)" g raw g1]
  by (simp add: get_sample_data_def DataFrame_def length_smooth)

lemma get_sample_data_failure:
  "raw_values rnd indicator (py_range start_year (end_year + 1)) g = (Inl e, g1) \<Longrightarrow>
     get_sample_data rnd indicator start_year end_year g = (Inl e, g1)"
  by (simp add: get_sample_data_def)

lemma py_range_eq_map: "py_range a b = map (\<lambda>i. a + int i) [0..<nat (b - a)]"
  by (rule nth_equalityI) (simp_all add: length_py_range nth_py_range)

lemma raw_values_returns:
  assumes "(str_contains ''GDP'' indicator \<and> str_contains ''growth'' indicator) \<or>
      str_contains ''Inflation'' indicator \<or>
      years = [] \<or> (1.03::real) ^ (length years - 1) < float_overflow_bound"
  shows "\<exists>raw g1. raw_values rnd indicator years g = (Inr raw, g1)"
proof (cases "str_contains ''GDP'' indicator \<and> str_contains ''growth'' indicator")
  case True
  then show ?thesis using raw_values_growth [of indicator rnd years g] by simp
next
  case growth: False
  show ?thesis
  proof (cases "str_contains ''Inflation'' indicator")
    case True
    then show ?thesis using growth raw_values_inflation [of indicator rnd years g] by simp
  next
    case False
    then have "years = [] \<or> (1.03::real) ^ (length years - 1) < float_overflow_bound"
      using assms growth by blast
    then show ?thesis
      using growth False raw_values_level [of indicator rnd years g]
      by (simp only: level_values_years if_True) simp
  qed
qed

text \<open>
  The 24,000th power of \<open>1.03\<close> is still in the binary64 range; two hundred times
  that power is not. The bounds are reached in steps that keep the numbers small.
\<close>

lemma pow_103_24_upper: "(1.03::real) ^ 24 \<le> 20327942 / 10 ^ 7"
  by (simp add: power_divide)

lemma pow_103_240_upper: "(1.03::real) ^ 240 \<le> 12048532 / 10 ^ 4"
proof -
  have "(240::nat) = 24 * 10" by simp
  then have "(1.03::real) ^ 240 = (1.03 ^ 24) ^ 10" by (simp only: power_mult)
  also have "\<dots> \<le> (20327942 / 10 ^ 7) ^ 10"
    using pow_103_24_upper by (intro power_mono) simp_all
  also have "\<dots> \<le> 12048532 / 10 ^ 4" by (simp add: power_divide)
  finally show ?thesis .
qed

lemma pow_103_2400_upper: "(1.03::real) ^ 2400 \<le> 64467579 * 10 ^ 23"
proof -
  have "(2400::nat) = 240 * 10" by simp
  then have "(1.03::real) ^ 2400 = (1.03 ^ 240) ^ 10" by (simp only: power_mult)
  also have "\<dots> \<le> (12048532 / 10 ^ 4) ^ 10"
    using pow_103_240_upper by (intro power_mono) simp_all
  also have "\<dots> \<le> 64467579 * 10 ^ 23" by (simp add: power_divide)
  finally show ?thesis .
qed

lemma pow_103_47_lower: "(4::real) \<le> 1.03 ^ 47"
  by (simp add: power_divide)

lemma pow_103_24000:
  "(1.03::real) ^ 24000 < float_overflow_bound"
  "float_overflow_bound \<le> 200 * 1.03 ^ 24000"
proof -
  have "(24000::nat) = 2400 * 10" by simp
  then have "(1.03::real) ^ 24000 = (1.03 ^ 2400) ^ 10" by (simp only: power_mult)
  also have "\<dots> \<le> (64467579 * 10 ^ 23) ^ 10"
    using pow_103_2400_upper by (intro power_mono) simp_all
  also have "\<dots> < 2 ^ 1024" by simp
  finally show "(1.03::real) ^ 24000 < float_overflow_bound"
    by (simp only: float_overflow_bound_def)
  have "(2::real) ^ 1024 \<le> 200 * 4 ^ 510" by simp
  also have "\<dots> \<le> 200 * (1.03 ^ 47) ^ 510"
    using pow_103_47_lower by (intro mult_left_mono power_mono) simp_all
  also have "\<dots> = 200 * 1.03 ^ (47 * 510)" by (simp only: power_mult)
  also have "\<dots> \<le> 200 * 1.03 ^ 24000"
    by (intro mult_left_mono power_increasing) simp_all
  finally show "float_overflow_bound \<le> 200 * 1.03 ^ 24000"
    by (simp only: float_overflow_bound_def)
qed

subsection \<open>The absolute-level series\<close>

text \<open>
  While \<open>base\<close> times the largest power is in range, the raw values of the
  absolute-level branch are the finite numbers \<open>base * 1.03 ^ k\<close>.
\<close>

lemma level_values_finite:
  assumes "1 \<le> base" and "base * 1.03 ^ (length years - 1) < float_overflow_bound"
  shows "level_values base (enumerate 0 years) =
     Inr (map (\<lambda>k. Fin (base * 1.03 ^ k)) [0..<length years])"
proof -
  have top: "base * 1.03 ^ k < float_overflow_bound" if "k < length years" for k
  proof -
    have "(1.03::real) ^ k \<le> 1.03 ^ (length years - 1)"
      using that by (intro power_increasing) simp_all
    then have "base * 1.03 ^ k \<le> base * 1.03 ^ (length years - 1)"
      using assms(1) by simp
    then show ?thesis using assms(2) by linarith
  qed
  have "1 * (1.03::real) ^ (length years - 1) \<le> base * 1.03 ^ (length years - 1)"
    using assms(1) by (intro mult_right_mono) simp_all
  then have le: "(1.03::real) ^ (length years - 1) \<le> base * 1.03 ^ (length years - 1)"
    by (simp only: mult_1)
  have pw: "(1.03::real) ^ (length years - 1) < float_overflow_bound"
    using le assms(2) by (rule le_less_trans)
  have map_eq: "map (\<lambda>i. float_result (base * 1.03 ^ i)) [0..<length years] =
      map (\<lambda>k. Fin (base * 1.03 ^ k)) [0..<length years]"
  proof (rule map_cong [OF refl])
    fix k assume "k \<in> set [0..<length years]"
    then have k: "k < length years" by simp
    have "0 \<le> base * 1.03 ^ k" using assms(1) by simp
    then show "float_result (base * 1.03 ^ k) = Fin (base * 1.03 ^ k)"
      using top [OF k] by (simp add: float_result_nonneg)
  qed
  show ?thesis
    using pw by (simp only: level_values_years map_eq simp_thms if_True)
qed

lemma get_sample_data_level:
  assumes "\<not> (str_contains ''GDP'' indicator \<and> str_contains ''growth'' indicator)"
    and "\<not> str_contains ''Inflation'' indicator"
    and "base = (if str_contains ''GDP'' indicator then 1 else 200)"
    and "n = nat (end_year - start_year + 1)"
    and "base * 1.03 ^ (n - 1) < float_overflow_bound"
  shows "get_sample_data rnd indicator start_year end_year g =
     (Inr \<lparr>year_col = py_range start_year (end_year + 1),
           value_col = smooth (map (\<lambda>k. Fin (base * 1.03 ^ k)) [0..<n])\<rparr>, g)"
proof -
  let ?years = "py_range start_year (end_year + 1)"
  have len: "length ?years = n"
    using assms(4) by (simp add: length_py_range algebra_simps)
  have b1: "1 \<le> base" using assms(3) by simp
  have "level_values base (enumerate 0 ?years) =
      Inr (map (\<lambda>k. Fin (base * 1.03 ^ k)) [0..<length ?years])"
    using b1 assms(5) by (intro level_values_finite) (simp_all only: len)
  then have "raw_values rnd indicator ?years g =
      (Inr (map (\<lambda>k. Fin (base * 1.03 ^ k)) [0..<n]), g)"
    using raw_values_level [OF assms(1,2), of rnd ?years g] assms(3) by (simp only: len)
  then show ?thesis by (rule get_sample_data_success)
qed

subsection \<open>Rounding to binary64\<close>

lemma pow2_powr: "pow2 e = 2 powr (real_of_int e)"
  by (simp add: pow2_def powr_int)

lemma b64_exponent_eq:
  assumes "pow2 e \<le> \<bar>x\<bar>" and "\<bar>x\<bar> < pow2 (e + 1)" and "- 1022 \<le> e"
  shows "b64_exponent x = e"
proof -
  have "0 < pow2 e" by (simp add: pow2_def)
  then have pos: "0 < \<bar>x\<bar>" using assms(1) by linarith
  have "2 powr (real_of_int e) \<le> \<bar>x\<bar>" "\<bar>x\<bar> < 2 powr (real_of_int e + 1)"
    using assms(1,2) by (simp_all add: pow2_powr add.commute)
  then have "\<lfloor>log 2 \<bar>x\<bar>\<rfloor> = e"
    using pos by (simp add: floor_log_eq_powr_iff)
  then show ?thesis using assms(3) by (simp add: b64_exponent_def)
qed

lemma round_b64_eq:
  assumes "pow2 e \<le> \<bar>x\<bar>" and "\<bar>x\<bar> < pow2 (e + 1)" and "- 1022 \<le> e"
  shows "round_b64 x = of_int (round_half_even (x / pow2 (e - 52))) * pow2 (e - 52)"
proof -
  have "0 < pow2 e" by (simp add: pow2_def)
  then have "x \<noteq> 0" using assms(1) by auto
  then show ?thesis
    by (simp add: round_b64_def b64_exponent_eq [OF assms] Let_def)
qed

lemma round_b64_07: "round_b64 0.7 = 6305039478318694 / 2 ^ 53"
  by (subst round_b64_eq [where e = "- 1"]) (simp_all add: pow2_def round_half_even_def)

lemma round_b64_03: "round_b64 0.3 = 5404319552844595 / 2 ^ 54"
  by (subst round_b64_eq [where e = "- 2"]) (simp_all add: pow2_def round_half_even_def)

lemma round_b64_07_times_3: "round_b64 (6305039478318694 / 2 ^ 53 * 3) = 4728779608739020 / 2 ^ 51"
  by (subst round_b64_eq [where e = 1]) (simp_all add: pow2_def round_half_even_def)

lemma round_b64_03_times_3: "round_b64 (5404319552844595 / 2 ^ 54 * 3) = 8106479329266892 / 2 ^ 53"
  by (subst round_b64_eq [where e = "- 1"]) (simp_all add: pow2_def round_half_even_def)

lemma round_b64_sum:
  "round_b64 (4728779608739020 / 2 ^ 51 + 8106479329266892 / 2 ^ 53) = 6755399441055743 / 2 ^ 51"
  by (subst round_b64_eq [where e = 1]) (simp_all add: pow2_def round_half_even_def)

lemma smooth_b64_3_3: "smooth_b64 [3, 3] = [3, 6755399441055743 / 2 ^ 51]"
proof -
  have "smooth_b64 [3, 3] = smooth_step_b64 1 [3, 3]"
    by (simp add: smooth_b64_def upt_conv_Cons)
  also have "\<dots> = [3, 3][1 := round_b64 (round_b64 (round_b64 0.7 * [3, 3] ! (1 - 1)) +
      round_b64 (round_b64 0.3 * [3, 3] ! 1))]"
    by (simp only: smooth_step_b64_def)
  also have "\<dots> = [3, 3][1 := round_b64 (round_b64 (round_b64 0.7 * 3) +
      round_b64 (round_b64 0.3 * 3))]"
    by simp
  also have "\<dots> = [3, 3][1 := 6755399441055743 / 2 ^ 51]"
    by (simp only: round_b64_07 round_b64_03 round_b64_07_times_3 round_b64_03_times_3
        round_b64_sum)
  also have "\<dots> = [3, 6755399441055743 / 2 ^ 51]"
    by simp
  finally show ?thesis .
qed

lemma smooth_b64_nth_0: "rs \<noteq> [] \<Longrightarrow> smooth_b64 rs ! 0 = rs ! 0"
proof -
  assume ne: "rs \<noteq> []"
  have st: "\<And>i vs. smooth_step_b64 i vs =
      vs[i := (\<lambda>p r. round_b64 (round_b64 (round_b64 0.7 * p) + round_b64 (round_b64 0.3 * r)))
               (vs ! (i - 1)) (vs ! i)]"
    by (simp only: smooth_step_b64_def)
  have "length rs \<le> length rs" by simp
  from fold_update_inv [of smooth_step_b64
      "\<lambda>p r. round_b64 (round_b64 (round_b64 0.7 * p) + round_b64 (round_b64 0.3 * r))"
      "length rs" rs, OF st this]
  show ?thesis using ne by (simp add: smooth_b64_def)
qed

subsection \<open>The stand-in generator\<close>

lemma counter_random_uniform_range:
  "lo \<le> hi \<Longrightarrow> lo \<le> fst (uniform counter_random lo hi g) \<and> fst (uniform counter_random lo hi g) \<le> hi"
proof -
  assume le: "lo \<le> hi"
  define t where "t = real (g mod 10) / 10"
  have t: "0 \<le> t" "t \<le> 1" by (simp_all add: t_def)
  have u: "fst (uniform counter_random lo hi g) = lo + (hi - lo) * t"
    by (simp add: counter_random_def t_def)
  have "0 \<le> (hi - lo) * t" using le t by simp
  moreover have "(hi - lo) * t \<le> (hi - lo) * 1" using le t by (intro mult_left_mono) simp_all
  ultimately show ?thesis unfolding u by simp
qed

subsection \<open>The country list\<close>

text \<open>
  One entry that raises is enough for the whole \<^verbatim>\<open>try\<close> block to raise: the loop
  stops at the first such entry.
\<close>

lemma collect_countries_error:
  "c \<in> set cs \<Longrightarrow> country_entry c = Inl e \<Longrightarrow> \<exists>e'. collect_countries cs countries = Inl e'"
proof (induction cs arbitrary: countries)
  case Nil
  then show ?case by simp
next
  case (Cons a cs)
  show ?case
  proof (cases "country_entry a")
    case (Inl e0)
    then show ?thesis by simp
  next
    case (Inr row)
    then have "a \<noteq> c" using Cons.prems by auto
    then have "c \<in> set cs" using Cons.prems by simp
    then show ?thesis
      using Cons.IH Cons.prems(2) Inr by (cases row) simp_all
  qed
qed

lemma get_countries_on_error:
  "get_countries_try outcome = Inl e \<Longrightarrow>
     get_countries outcome = \<lparr>reported = Some e, frame = fallback_countries\<rparr>"
  by (simp add: get_countries_def)

lemma get_countries_try_not_list:
  "(\<forall>xs. data \<noteq> JArr xs) \<Longrightarrow> (\<forall>s. data \<noteq> JStr s) \<Longrightarrow>
     \<exists>e. get_countries_try (Body data) = Inl e"
  by (cases data) (simp_all add: get_countries_try_def)

lemma get_countries_try_short:
  "length xs < 2 \<Longrightarrow> get_countries_try (Body (JArr xs)) = Inl IndexError"
  by (simp add: get_countries_try_def)

lemma get_countries_try_bad_entry:
  "c \<in> set cs \<Longrightarrow> country_entry c = Inl e \<Longrightarrow>
     \<exists>e'. get_countries_try (Body (JArr [meta, JArr cs])) = Inl e'"
  using collect_countries_error [of c cs e "[]"] by (simp add: get_countries_try_def)

text \<open>An entry raises exactly when it lacks the shape the loop reads.\<close>

lemma country_entry_raises_iff: "(\<exists>e. country_entry c = Inl e) \<longleftrightarrow> \<not> readable_entry c"
proof (cases c)
  case (JObj kvs)
  show ?thesis
  proof (cases "map_of kvs ''region''")
    case None
    then show ?thesis using JObj by (simp add: country_entry_def readable_entry_def)
  next
    case (Some r)
    show ?thesis
    proof (cases r)
      case inner: (JObj rkvs)
      show ?thesis
        using JObj Some inner
        by (cases "map_of rkvs ''value''"; cases "map_of kvs ''id''"; cases "map_of kvs ''name''")
          (simp_all add: country_entry_def readable_entry_def)
    qed (use JObj Some in \<open>simp_all add: country_entry_def readable_entry_def\<close>)
  qed
qed (simp_all add: country_entry_def readable_entry_def)

lemma collect_countries_ok:
  "\<forall>c\<in>set cs. readable_entry c \<Longrightarrow> \<exists>rows. collect_countries cs countries = Inr rows"
proof (induction cs arbitrary: countries)
  case Nil
  then show ?case by simp
next
  case (Cons a cs)
  then have "readable_entry a" by simp
  then obtain row where row: "country_entry a = Inr row"
    using country_entry_raises_iff [of a] by (cases "country_entry a") auto
  show ?case using Cons row by (cases row) simp_all
qed

lemma get_countries_try_ok:
  "\<forall>c\<in>set cs. readable_entry c \<Longrightarrow>
     \<exists>rows. get_countries_try (Body (JArr [meta, JArr cs])) = Inr rows"
  using collect_countries_ok [of cs "[]"] by (simp add: get_countries_try_def)

section \<open>The claims\<close>

subsection \<open>C1: the rule that fills the raw values\<close>

text \<open>
  Claim C1 says that for every year range the last branch yields the raw values
  \<open>base * 1.03 ^ i\<close>. The code computes each of them as
  \<^verbatim>\<open>base * (1 + 0.03) ** i\<close>. The power raises \<^verbatim>\<open>OverflowError\<close> once it passes the
  binary64 range, so a range of some 25,000 years has no raw values at all:
\<close>

theorem raw_values_overflow_counterexample:
  "raw_values counter_random ''GDP (current US$)'' (py_range 2000 27001) 0 =
     (Inl OverflowError, 0)"
proof -
  have len: "length (py_range 2000 27001) = 25001"
    by (simp add: length_py_range)
  have "float_overflow_bound \<le> 1.03 ^ (25001 - 1)"
    by (rule pow_103_overflow) simp
  then have big: "\<not> (py_range 2000 27001 = [] \<or>
      (1.03::real) ^ (length (py_range 2000 27001) - 1) < float_overflow_bound)"
    using len by (auto simp del: length_0_conv)
  have "raw_values counter_random ''GDP (current US$)'' (py_range 2000 27001) 0 =
      (level_values (if str_contains ''GDP'' ''GDP (current US$)'' then 1 else 200)
         (enumerate 0 (py_range 2000 27001)), 0)"
    by (rule raw_values_level) simp_all
  then show ?thesis
    using big by (simp only: level_values_years if_False)
qed

text \<open>
  C1, amended. For every indicator name and every list of years, the raw values are
  chosen by substring tests on the name, in this order. If the name contains both
  \<^verbatim>\<open>GDP\<close> and \<^verbatim>\<open>growth\<close>, there is one draw of \<open>normal 3 1\<close> per year, each from the
  generator state the previous draw left. Otherwise, if the name contains
  \<^verbatim>\<open>Inflation\<close>, the same with \<open>normal 2.5 0.8\<close>. Otherwise \<open>base\<close> is \<open>1\<close> when the
  name contains \<^verbatim>\<open>GDP\<close> and \<open>200\<close> when it does not, no draw is made and the generator
  state is returned unchanged, and there are three cases for \<open>n\<close> years. While the
  largest power \<open>1.03 ^ (n - 1)\<close> is below the overflow bound \<open>2 ^ 1024\<close>, the raw
  value at position \<open>i\<close> is the float product of \<open>base\<close> and \<open>1.03 ^ i\<close>: the number
  \<open>base * 1.03 ^ i\<close> where that is below the bound, and \<^verbatim>\<open>inf\<close> where it is not (which
  happens for base \<open>200\<close> only). For a longer range the branch raises
  \<^verbatim>\<open>OverflowError\<close>.
\<close>

theorem raw_values_rule:
  "(str_contains ''GDP'' indicator \<and> str_contains ''growth'' indicator \<longrightarrow>
      raw_values rnd indicator years g =
        (Inr (map (\<lambda>i. Fin (fst (normal rnd 3 1 (state_after (normal rnd 3 1) i g))))
               [0..<length years]),
         state_after (normal rnd 3 1) (length years) g)) \<and>
   (\<not> (str_contains ''GDP'' indicator \<and> str_contains ''growth'' indicator) \<and>
    str_contains ''Inflation'' indicator \<longrightarrow>
      raw_values rnd indicator years g =
        (Inr (map (\<lambda>i. Fin (fst (normal rnd 2.5 0.8 (state_after (normal rnd 2.5 0.8) i g))))
               [0..<length years]),
         state_after (normal rnd 2.5 0.8) (length years) g)) \<and>
   (\<not> (str_contains ''GDP'' indicator \<and> str_contains ''growth'' indicator) \<and>
    \<not> str_contains ''Inflation'' indicator \<and>
    (years = [] \<or> 1.03 ^ (length years - 1) < float_overflow_bound) \<longrightarrow>
      raw_values rnd indicator years g =
        (Inr (map (\<lambda>i. if (if str_contains ''GDP'' indicator then 1 else 200) * 1.03 ^ i
                             < float_overflow_bound
                          then Fin ((if str_contains ''GDP'' indicator then 1 else 200) * 1.03 ^ i)
                          else PInf)
               [0..<length years]),
         g)) \<and>
   (\<not> (str_contains ''GDP'' indicator \<and> str_contains ''growth'' indicator) \<and>
    \<not> str_contains ''Inflation'' indicator \<and>
    \<not> (years = [] \<or> 1.03 ^ (length years - 1) < float_overflow_bound) \<longrightarrow>
      raw_values rnd indicator years g = (Inl OverflowError, g))"
proof (intro conjI impI)
  assume "str_contains ''GDP'' indicator \<and> str_contains ''growth'' indicator"
  then show "raw_values rnd indicator years g =
        (Inr (map (\<lambda>i. Fin (fst (normal rnd 3 1 (state_after (normal rnd 3 1) i g))))
               [0..<length years]),
         state_after (normal rnd 3 1) (length years) g)"
    by (simp add: raw_values_growth)
next
  assume "\<not> (str_contains ''GDP'' indicator \<and> str_contains ''growth'' indicator) \<and>
    str_contains ''Inflation'' indicator"
  then show "raw_values rnd indicator years g =
        (Inr (map (\<lambda>i. Fin (fst (normal rnd 2.5 0.8 (state_after (normal rnd 2.5 0.8) i g))))
               [0..<length years]),
         state_after (normal rnd 2.5 0.8) (length years) g)"
    using raw_values_inflation [of indicator rnd years g] by blast
next
  let ?base = "if str_contains ''GDP'' indicator then 1 else (200::real)"
  assume a: "\<not> (str_contains ''GDP'' indicator \<and> str_contains ''growth'' indicator) \<and>
    \<not> str_contains ''Inflation'' indicator \<and>
    (years = [] \<or> 1.03 ^ (length years - 1) < float_overflow_bound)"
  then have "raw_values rnd indicator years g = (level_values ?base (enumerate 0 years), g)"
    using raw_values_level [of indicator rnd years g] by blast
  then have "raw_values rnd indicator years g =
      (Inr (map (\<lambda>i. float_result (?base * 1.03 ^ i)) [0..<length years]), g)"
    using a by (simp only: level_values_years if_True)
  moreover have "\<And>i. float_result (?base * 1.03 ^ i) =
      (if ?base * 1.03 ^ i < float_overflow_bound then Fin (?base * 1.03 ^ i) else PInf)"
    by (rule float_result_nonneg) simp
  ultimately show "raw_values rnd indicator years g =
        (Inr (map (\<lambda>i. if ?base * 1.03 ^ i < float_overflow_bound
                          then Fin (?base * 1.03 ^ i) else PInf)
               [0..<length years]),
         g)"
    by simp
next
  assume a: "\<not> (str_contains ''GDP'' indicator \<and> str_contains ''growth'' indicator) \<and>
    \<not> str_contains ''Inflation'' indicator \<and>
    \<not> (years = [] \<or> 1.03 ^ (length years - 1) < float_overflow_bound)"
  then have "raw_values rnd indicator years g =
      (level_values (if str_contains ''GDP'' indicator then 1 else 200) (enumerate 0 years), g)"
    using raw_values_level [of indicator rnd years g] by blast
  then show "raw_values rnd indicator years g = (Inl OverflowError, g)"
    using a by (simp only: level_values_years if_False)
qed

text \<open>
  The three branches on two and three years, and the base \<open>200\<close> on the 24,001 years
  from 0 to 24000: there the powers are all in range, no error is raised, and the last
  raw value is \<^verbatim>\<open>inf\<close>.
\<close>

theorem raw_values_rule_witness:
  "raw_values counter_random ''GDP growth (annual %)'' [2020, 2021] 0 =
     (Inr [Fin 2, Fin 2.5], 2) \<and>
   raw_values counter_random ''Inflation, consumer prices (annual %)'' [2020, 2021] 0 =
     (Inr [Fin 1.7, Fin 2.1], 2) \<and>
   raw_values counter_random ''GDP (current US$)'' [2020, 2021, 2022] 0 =
     (Inr [Fin 1, Fin 1.03, Fin 1.0609], 0) \<and>
   raw_values counter_random ''Unemployment'' [2020, 2021, 2022] 0 =
     (Inr [Fin 200, Fin 206, Fin 212.18], 0) \<and>
   (\<exists>raw. raw_values counter_random ''Unemployment'' (py_range 0 24001) 0 = (Inr raw, 0) \<and>
      length raw = 24001 \<and> raw ! 0 = Fin 200 \<and> raw ! 24000 = PInf)"
proof -
  have small: "raw_values counter_random ''GDP growth (annual %)'' [2020, 2021] 0 =
     (Inr [Fin 2, Fin 2.5], 2) \<and>
   raw_values counter_random ''Inflation, consumer prices (annual %)'' [2020, 2021] 0 =
     (Inr [Fin 1.7, Fin 2.1], 2) \<and>
   raw_values counter_random ''GDP (current US$)'' [2020, 2021, 2022] 0 =
     (Inr [Fin 1, Fin 1.03, Fin 1.0609], 0) \<and>
   raw_values counter_random ''Unemployment'' [2020, 2021, 2022] 0 =
     (Inr [Fin 200, Fin 206, Fin 212.18], 0)"
    using raw_values_rule [of "''GDP growth (annual %)''" counter_random "[2020, 2021]" 0]
      raw_values_rule [of "''Inflation, consumer prices (annual %)''" counter_random "[2020, 2021]" 0]
      raw_values_rule [of "''GDP (current US$)''" counter_random "[2020, 2021, 2022]" 0]
      raw_values_rule [of "''Unemployment''" counter_random "[2020, 2021, 2022]" 0]
    by (simp add: counter_random_def upt_conv_Cons power2_eq_square float_overflow_bound_def)
  let ?years = "py_range 0 24001"
  let ?f = "\<lambda>i. if (200::real) * 1.03 ^ i < float_overflow_bound
      then Fin (200 * 1.03 ^ i) else PInf"
  have len: "length ?years = 24001" by (simp add: length_py_range)
  have "(24001::nat) - 1 = 24000" by simp
  then have rng: "?years = [] \<or> (1.03::real) ^ (length ?years - 1) < float_overflow_bound"
    by (simp only: len pow_103_24000(1) simp_thms)
  have name: "\<not> (str_contains ''GDP'' ''Unemployment'' \<and> str_contains ''growth'' ''Unemployment'')"
    "\<not> str_contains ''Inflation'' ''Unemployment''"
    by simp_all
  have base: "(if str_contains ''GDP'' ''Unemployment'' then 1 else 200) = (200::real)"
    by simp
  have "raw_values counter_random ''Unemployment'' ?years 0 =
      (Inr (map (\<lambda>i. if (if str_contains ''GDP'' ''Unemployment'' then 1 else 200) * 1.03 ^ i
                             < float_overflow_bound
                          then Fin ((if str_contains ''GDP'' ''Unemployment'' then 1 else 200)
                                      * 1.03 ^ i)
                          else PInf)
               [0..<length ?years]), 0)"
    using raw_values_rule [of "''Unemployment''" counter_random ?years 0] name rng by blast
  then have raw: "raw_values counter_random ''Unemployment'' ?years 0 =
      (Inr (map ?f [0..<24001]), 0)"
    by (simp only: base len)
  have lt: "0 < length [0..<(24001::nat)]" "24000 < length [0..<(24001::nat)]"
    by simp_all
  have idx: "[0..<(24001::nat)] ! 0 = 0" "[0..<(24001::nat)] ! 24000 = 24000"
    by simp_all
  have "(200::real) * 1.03 ^ 0 < float_overflow_bound"
    by (simp add: float_overflow_bound_def)
  then have first: "map ?f [0..<24001] ! 0 = Fin 200"
    by (simp only: nth_map [OF lt(1)] idx(1) if_True) simp
  have "\<not> (200::real) * 1.03 ^ 24000 < float_overflow_bound"
    by (simp only: not_less pow_103_24000(2))
  then have last: "map ?f [0..<24001] ! 24000 = PInf"
    by (simp only: nth_map [OF lt(2)] idx(2) if_False)
  have "length (map ?f [0..<(24001::nat)]) = 24001" by simp
  then show ?thesis using small raw first last by blast
qed

subsection \<open>C2: the smoothing pass\<close>



subsection \<open>C3: the risk classification\<close>

text \<open>
  C3. For every real score: a score of at least \<open>7\<close> gives the label \<^verbatim>\<open>High Risk\<close>, the
  tag \<^verbatim>\<open>risk-high\<close> and the sentence about headwinds and policy intervention; a
  score of at least \<open>4\<close> and below \<open>7\<close> gives \<^verbatim>\<open>Medium Risk\<close>, \<^verbatim>\<open>risk-medium\<close> and the
  sentence about mixed signals and monitoring; a score below \<open>4\<close> gives \<^verbatim>\<open>Low Risk\<close>,
  \<^verbatim>\<open>risk-low\<close> and the sentence about favorable conditions. The thresholds apply to
  every real number, also outside \<open>[2, 8]\<close>.
\<close>

theorem risk_classification:
  "(score \<ge> 7 \<longrightarrow>
      risk_analysis score = (''High Risk'', ''risk-high'') \<and>
      generate_outlook score =
        ''Economic conditions face significant headwinds. Policy intervention may be needed to stabilize growth and inflation.'') \<and>
   (4 \<le> score \<and> score < 7 \<longrightarrow>
      risk_analysis score = (''Medium Risk'', ''risk-medium'') \<and>
      generate_outlook score =
        ''Economic conditions show mixed signals with moderate risks. Careful monitoring recommended.'') \<and>
   (score < 4 \<longrightarrow>
      risk_analysis score = (''Low Risk'', ''risk-low'') \<and>
      generate_outlook score =
        ''Economic conditions appear favorable with positive outlook for sustained growth and stability.'')"
  by (simp add: risk_analysis_def generate_outlook_def)

text \<open>The scores named in the claim, and four outside \<open>[2, 8]\<close>.\<close>

theorem risk_classification_witness:
  "fst (risk_analysis 7.0) = ''High Risk'' \<and>
   fst (risk_analysis 6.999) = ''Medium Risk'' \<and>
   fst (risk_analysis 4.0) = ''Medium Risk'' \<and>
   fst (risk_analysis 3.999) = ''Low Risk'' \<and>
   fst (risk_analysis 2.0) = ''Low Risk'' \<and>
   risk_analysis 8.5 = (''High Risk'', ''risk-high'') \<and>
   risk_analysis 1000 = (''High Risk'', ''risk-high'') \<and>
   risk_analysis 1.5 = (''Low Risk'', ''risk-low'') \<and>
   risk_analysis (- 3) = (''Low Risk'', ''risk-low'') \<and>
   generate_outlook 7.0 =
     ''Economic conditions face significant headwinds. Policy intervention may be needed to stabilize growth and inflation.'' \<and>
   generate_outlook 6.999 =
     ''Economic conditions show mixed signals with moderate risks. Careful monitoring recommended.'' \<and>
   generate_outlook 3.999 =
     ''Economic conditions appear favorable with positive outlook for sustained growth and stability.''"
  using risk_classification [of "7.0"] risk_classification [of "6.999"] risk_classification [of "4.0"]
    risk_classification [of "3.999"] risk_classification [of "2.0"] risk_classification [of "8.5"]
    risk_classification [of "1000"] risk_classification [of "1.5"] risk_classification [of "- 3"]
  by simp

subsection \<open>C4: one point per year\<close>

text \<open>
  Claim C4 promises \<open>end_year - start_year + 1\<close> points for every range with
  \<open>start_year \<le> end_year\<close>. In the branch that compounds \<open>1.03\<close> the power overflows on
  a long range and \<^verbatim>\<open>get_sample_data\<close> raises instead of returning points:
\<close>

theorem get_sample_data_overflow_counterexample:
  "get_sample_data counter_random ''GDP (current US$)'' 2000 27000 0 = (Inl OverflowError, 0)"
proof -
  have len: "length (py_range 2000 (27000 + 1)) = 25001"
    by (simp add: length_py_range)
  have "float_overflow_bound \<le> 1.03 ^ (25001 - 1)"
    by (rule pow_103_overflow) simp
  then have big: "\<not> (py_range 2000 (27000 + 1) = [] \<or>
      (1.03::real) ^ (length (py_range 2000 (27000 + 1)) - 1) < float_overflow_bound)"
    using len by (auto simp del: length_0_conv)
  have "raw_values counter_random ''GDP (current US$)'' (py_range 2000 (27000 + 1)) 0 =
      (level_values (if str_contains ''GDP'' ''GDP (current US$)'' then 1 else 200)
         (enumerate 0 (py_range 2000 (27000 + 1))), 0)"
    by (rule raw_values_level) simp_all
  then have "raw_values counter_random ''GDP (current US$)'' (py_range 2000 (27000 + 1)) 0 =
      (Inl OverflowError, 0)"
    using big by (simp only: level_values_years if_False)
  then show ?thesis by (rule get_sample_data_failure)
qed

text \<open>
  C4, amended. For every indicator name and every range with
  \<open>start_year \<le> end_year\<close>, if the name selects one of the two random branches, or
  \<open>1.03 ^ (end_year - start_year)\<close> is below the overflow bound \<open>2 ^ 1024\<close>, then
  \<^verbatim>\<open>get_sample_data\<close> returns a frame with exactly \<open>end_year - start_year + 1\<close> years
  and as many values, and the years are \<open>start_year, start_year + 1, \<dots>\<close> in steps of
  one.
\<close>

theorem get_sample_data_points:
  assumes "start_year \<le> end_year"
    and "(str_contains ''GDP'' indicator \<and> str_contains ''growth'' indicator) \<or>
      str_contains ''Inflation'' indicator \<or>
      (1.03::real) ^ nat (end_year - start_year) < float_overflow_bound"
  shows "\<exists>df g1. get_sample_data rnd indicator start_year end_year g = (Inr df, g1) \<and>
      length (year_col df) = nat (end_year - start_year + 1) \<and>
      length (value_col df) = nat (end_year - start_year + 1) \<and>
      year_col df = map (\<lambda>i. start_year + int i) [0..<nat (end_year - start_year + 1)]"
proof -
  let ?years = "py_range start_year (end_year + 1)"
  have len: "length ?years = nat (end_year - start_year + 1)"
    by (simp add: length_py_range)
  have "length ?years - 1 = nat (end_year - start_year)"
    using assms(1) len by simp
  with assms(2) have "(str_contains ''GDP'' indicator \<and> str_contains ''growth'' indicator) \<or>
      str_contains ''Inflation'' indicator \<or>
      ?years = [] \<or> (1.03::real) ^ (length ?years - 1) < float_overflow_bound"
    by presburger
  then obtain raw g1 where raw: "raw_values rnd indicator ?years g = (Inr raw, g1)"
    using raw_values_returns [of indicator ?years rnd g] by blast
  have "length raw = length ?years"
    using raw by (rule raw_values_length)
  moreover have "?years = map (\<lambda>i. start_year + int i) [0..<nat (end_year - start_year + 1)]"
  proof -
    have e: "end_year - start_year + 1 = end_year + 1 - start_year" by simp
    show ?thesis unfolding e by (rule py_range_eq_map)
  qed
  ultimately show ?thesis
    using get_sample_data_success [OF raw] len by (simp add: length_smooth)
qed

theorem get_sample_data_points_witness:
  "\<exists>df g1. get_sample_data counter_random ''GDP (current US$)'' 2015 2023 0 = (Inr df, g1) \<and>
      length (year_col df) = 9 \<and> length (value_col df) = 9 \<and>
      year_col df = [2015, 2016, 2017, 2018, 2019, 2020, 2021, 2022, 2023]"
proof -
  have a: "(2015::int) \<le> 2023" by simp
  have b: "(str_contains ''GDP'' ''GDP (current US$)'' \<and> str_contains ''growth'' ''GDP (current US$)'') \<or>
      str_contains ''Inflation'' ''GDP (current US$)'' \<or>
      (1.03::real) ^ nat (2023 - 2015) < float_overflow_bound"
    by (simp add: float_overflow_bound_def power_divide)
  show ?thesis
    using get_sample_data_points [OF a b, of counter_random 0]
    by (simp add: upt_conv_Cons)
qed

subsection \<open>C5: the fallback country list\<close>

text \<open>
  Claim C5 promises the built-in list whenever the fetch fails, an unexpected schema
  included. The handler only sees an exception, and a body can depart from the
  expected schema without raising one. When the second element of the body is an
  empty string, the loop runs over nothing and the function returns an empty frame;
  when an entry has the keys the loop reads but values of the wrong types, the
  values are copied into the frame. Neither is the built-in list, and nothing is
  reported:
\<close>

theorem get_countries_schema_counterexample:
  "get_countries (Body (JArr [sample_page, JStr ''''])) = \<lparr>reported = None, frame = []\<rparr> \<and>
   get_countries (Body (JArr [sample_page, JArr [sample_wrong_types]])) =
     \<lparr>reported = None,
      frame = [\<lparr>row_id = JNum 7, row_name = JNull, row_region = JArr []\<rparr>]\<rparr> \<and>
   frame (get_countries (Body (JArr [sample_page, JStr '''']))) \<noteq> fallback_countries \<and>
   frame (get_countries (Body (JArr [sample_page, JArr [sample_wrong_types]]))) \<noteq>
     fallback_countries"
  by (simp add: get_countries_def get_countries_try_def country_entry_def
      sample_wrong_types_def fallback_countries_def)

text \<open>
  C5, amended. Whenever the \<^verbatim>\<open>try\<close> block of \<^verbatim>\<open>get_countries\<close> raises, whatever the
  exception, the function does not raise: it reports the exception on the page and
  returns the built-in list of five countries: USA, United States, North America;
  GBR, United Kingdom, Europe & Central Asia; JPN, Japan, East Asia & Pacific; DEU,
  Germany, Europe & Central Asia; IND, India, South Asia. The block raises when the
  request fails, when the body is not JSON, when the body is neither a list nor a
  string, when it is a list of fewer than two elements, and when its second element
  is a list with an entry that lacks the shape the loop reads. A body whose second
  element is a list of entries that all have that shape raises nothing, whatever the
  types of their values, and then nothing is reported and the frame is built from
  the body.
\<close>

theorem get_countries_fallback:
  "(get_countries_try outcome = Inl e \<longrightarrow>
      reported (get_countries outcome) = Some e \<and>
      map (\<lambda>r. (row_id r, row_name r, row_region r)) (frame (get_countries outcome)) =
        [(JStr ''USA'', JStr ''United States'', JStr ''North America''),
         (JStr ''GBR'', JStr ''United Kingdom'', JStr ''Europe & Central Asia''),
         (JStr ''JPN'', JStr ''Japan'', JStr ''East Asia & Pacific''),
         (JStr ''DEU'', JStr ''Germany'', JStr ''Europe & Central Asia''),
         (JStr ''IND'', JStr ''India'', JStr ''South Asia'')]) \<and>
   get_countries RequestFailed = \<lparr>reported = Some ConnectionError, frame = fallback_countries\<rparr> \<and>
   get_countries BodyNotJson = \<lparr>reported = Some JSONDecodeError, frame = fallback_countries\<rparr> \<and>
   ((\<forall>xs. data \<noteq> JArr xs) \<and> (\<forall>s. data \<noteq> JStr s) \<longrightarrow>
      reported (get_countries (Body data)) \<noteq> None \<and>
      frame (get_countries (Body data)) = fallback_countries) \<and>
   (length xs < 2 \<longrightarrow>
      get_countries (Body (JArr xs)) = \<lparr>reported = Some IndexError, frame = fallback_countries\<rparr>) \<and>
   (c \<in> set cs \<and> \<not> readable_entry c \<longrightarrow>
      reported (get_countries (Body (JArr [meta, JArr cs]))) \<noteq> None \<and>
      frame (get_countries (Body (JArr [meta, JArr cs]))) = fallback_countries) \<and>
   ((\<forall>c\<in>set cs. readable_entry c) \<longrightarrow>
      reported (get_countries (Body (JArr [meta, JArr cs]))) = None \<and>
      get_countries_try (Body (JArr [meta, JArr cs])) =
        Inr (frame (get_countries (Body (JArr [meta, JArr cs])))))"
proof (intro conjI impI)
  assume "get_countries_try outcome = Inl e"
  then have g: "get_countries outcome = \<lparr>reported = Some e, frame = fallback_countries\<rparr>"
    by (rule get_countries_on_error)
  show "reported (get_countries outcome) = Some e" by (simp add: g)
  show "map (\<lambda>r. (row_id r, row_name r, row_region r)) (frame (get_countries outcome)) =
        [(JStr ''USA'', JStr ''United States'', JStr ''North America''),
         (JStr ''GBR'', JStr ''United Kingdom'', JStr ''Europe & Central Asia''),
         (JStr ''JPN'', JStr ''Japan'', JStr ''East Asia & Pacific''),
         (JStr ''DEU'', JStr ''Germany'', JStr ''Europe & Central Asia''),
         (JStr ''IND'', JStr ''India'', JStr ''South Asia'')]"
    by (simp add: g fallback_countries_def)
next
  show "get_countries RequestFailed =
      \<lparr>reported = Some ConnectionError, frame = fallback_countries\<rparr>"
    by (simp add: get_countries_def get_countries_try_def)
next
  show "get_countries BodyNotJson =
      \<lparr>reported = Some JSONDecodeError, frame = fallback_countries\<rparr>"
    by (simp add: get_countries_def get_countries_try_def)
next
  assume a: "(\<forall>xs. data \<noteq> JArr xs) \<and> (\<forall>s. data \<noteq> JStr s)"
  then obtain e0 where e0: "get_countries_try (Body data) = Inl e0"
    using get_countries_try_not_list [of data] by blast
  show "reported (get_countries (Body data)) \<noteq> None"
    by (simp add: get_countries_on_error [OF e0])
  show "frame (get_countries (Body data)) = fallback_countries"
    by (simp add: get_countries_on_error [OF e0])
next
  assume "length xs < 2"
  then show "get_countries (Body (JArr xs)) =
      \<lparr>reported = Some IndexError, frame = fallback_countries\<rparr>"
    by (simp add: get_countries_on_error get_countries_try_short)
next
  assume a: "c \<in> set cs \<and> \<not> readable_entry c"
  then obtain e1 where "country_entry c = Inl e1"
    using country_entry_raises_iff [of c] by blast
  then obtain e0 where e0: "get_countries_try (Body (JArr [meta, JArr cs])) = Inl e0"
    using get_countries_try_bad_entry [of c cs e1 meta] a by blast
  show "reported (get_countries (Body (JArr [meta, JArr cs]))) \<noteq> None"
    by (simp add: get_countries_on_error [OF e0])
  show "frame (get_countries (Body (JArr [meta, JArr cs]))) = fallback_countries"
    by (simp add: get_countries_on_error [OF e0])
next
  assume a: "\<forall>c\<in>set cs. readable_entry c"
  then obtain rows where rows: "get_countries_try (Body (JArr [meta, JArr cs])) = Inr rows"
    using get_countries_try_ok [of cs meta] by blast
  show "reported (get_countries (Body (JArr [meta, JArr cs]))) = None"
    by (simp add: get_countries_def rows)
  show "get_countries_try (Body (JArr [meta, JArr cs])) =
      Inr (frame (get_countries (Body (JArr [meta, JArr cs]))))"
    by (simp add: get_countries_def rows)
qed

text \<open>
  The error page of the endpoint, a body that is an object, a list with an entry that
  has no \<^verbatim>\<open>region\<close>, and a well-formed body, in which the aggregate is left out.
\<close>

theorem get_countries_fallback_witness:
  "get_countries (Body (JArr [JObj [(''message'', JStr ''Invalid format'')]])) =
     \<lparr>reported = Some IndexError, frame = fallback_countries\<rparr> \<and>
   frame (get_countries (Body (JObj [(''message'', JStr ''Invalid format'')]))) = fallback_countries \<and>
   frame (get_countries (Body (JArr [sample_page, JArr [sample_japan, sample_no_region]]))) =
     fallback_countries \<and>
   length fallback_countries = 5 \<and>
   get_countries (Body (JArr [sample_page, JArr [sample_japan, sample_world]])) =
     \<lparr>reported = None,
      frame = [\<lparr>row_id = JStr ''JPN'', row_name = JStr ''Japan'',
                row_region = JStr ''East Asia & Pacific''\<rparr>]\<rparr>"
proof -
  let ?err = "Body (JArr [JObj [(''message'', JStr ''Invalid format'')]])"
  have a: "get_countries ?err = \<lparr>reported = Some IndexError, frame = fallback_countries\<rparr>"
    using get_countries_fallback [where xs = "[JObj [(''message'', JStr ''Invalid format'')]]"]
    by simp
  have b: "frame (get_countries (Body (JObj [(''message'', JStr ''Invalid format'')]))) =
      fallback_countries"
    using get_countries_fallback [where data = "JObj [(''message'', JStr ''Invalid format'')]"]
    by simp
  have bad: "sample_no_region \<in> set [sample_japan, sample_no_region] \<and>
      \<not> readable_entry sample_no_region"
    by (simp add: sample_no_region_def readable_entry_def)
  have c: "frame (get_countries (Body (JArr [sample_page, JArr [sample_japan, sample_no_region]]))) =
      fallback_countries"
    using get_countries_fallback [where c = sample_no_region
        and cs = "[sample_japan, sample_no_region]" and meta = sample_page] bad
    by blast
  have d: "length fallback_countries = 5"
    by (simp add: fallback_countries_def)
  have ok: "\<forall>c\<in>set [sample_japan, sample_world]. readable_entry c"
    by (simp add: sample_japan_def sample_world_def readable_entry_def)
  have rows: "get_countries_try (Body (JArr [sample_page, JArr [sample_japan, sample_world]])) =
      Inr [\<lparr>row_id = JStr ''JPN'', row_name = JStr ''Japan'',
             row_region = JStr ''East Asia & Pacific''\<rparr>]"
    by (simp add: get_countries_try_def country_entry_def sample_japan_def sample_world_def)
  have e: "get_countries (Body (JArr [sample_page, JArr [sample_japan, sample_world]])) =
     \<lparr>reported = None,
      frame = [\<lparr>row_id = JStr ''JPN'', row_name = JStr ''Japan'',
                row_region = JStr ''East Asia & Pacific''\<rparr>]\<rparr>"
    using get_countries_fallback [where cs = "[sample_japan, sample_world]"
        and meta = sample_page] ok rows
    by (cases "get_countries (Body (JArr [sample_page, JArr [sample_japan, sample_world]]))")
      simp
  show ?thesis using a b c d e by simp
qed

subsection \<open>C6: the risk score\<close>

text \<open>
  C6. Provided the uniform sampler returns a value between the bounds it is given,
  the risk score lies in \<open>[2, 8]\<close>; and the score, together with the generator state
  it leaves, is the same for any two indicator-data arguments when the generator
  and its state are the same.
\<close>

theorem risk_score_range_independent:
  assumes "\<forall>lo hi g. lo \<le> hi \<longrightarrow> lo \<le> fst (uniform rnd lo hi g) \<and> fst (uniform rnd lo hi g) \<le> hi"
  shows "2 \<le> fst (calculate_risk_score rnd indicators_data g) \<and>
    fst (calculate_risk_score rnd indicators_data g) \<le> 8 \<and>
    calculate_risk_score rnd indicators_data g = calculate_risk_score rnd other_data g"
proof -
  have "(2::real) \<le> 8" by simp
  with assms have "2 \<le> fst (uniform rnd 2 8 g) \<and> fst (uniform rnd 2 8 g) \<le> 8" by blast
  then show ?thesis by (simp add: calculate_risk_score_def)
qed

theorem risk_score_range_independent_witness:
  "fst (calculate_risk_score counter_random Map.empty 7) = 6.2 \<and>
   (2::real) \<le> 6.2 \<and> (6.2::real) \<le> 8 \<and>
   calculate_risk_score counter_random Map.empty 7 =
     calculate_risk_score counter_random
       [''GDP (current US$)'' \<mapsto> \<lparr>year_col = [2022, 2023], value_col = [Fin 1, Fin 1.009]\<rparr>] 7"
proof -
  have c: "\<forall>lo hi g. lo \<le> hi \<longrightarrow>
      lo \<le> fst (uniform counter_random lo hi g) \<and> fst (uniform counter_random lo hi g) \<le> hi"
    using counter_random_uniform_range by blast
  have v: "fst (calculate_risk_score counter_random Map.empty 7) = 6.2"
    by (simp add: calculate_risk_score_def counter_random_def)
  show ?thesis
    using risk_score_range_independent [OF c, of Map.empty 7
        "[''GDP (current US$)'' \<mapsto> \<lparr>year_col = [2022, 2023], value_col = [Fin 1, Fin 1.009]\<rparr>]"] v
    by simp
qed

subsection \<open>C7: the substring tests are case-sensitive\<close>

text \<open>
  C7. A name with no \<^verbatim>\<open>GDP\<close> and no \<^verbatim>\<open>Inflation\<close> in exactly this spelling, whatever it
  contains in another case, gets the absolute-level branch with base \<open>200\<close>; a name
  with \<^verbatim>\<open>GDP\<close> but without lower-case \<^verbatim>\<open>growth\<close> and without \<^verbatim>\<open>Inflation\<close> gets the
  absolute-level branch with base \<open>1\<close>; in both cases no draw is made. In particular
  \<^verbatim>\<open>gdp growth\<close> gets the absolute-level branch with base \<open>200\<close>.
\<close>

theorem case_sensitive_fallthrough:
  "(\<not> str_contains ''GDP'' indicator \<and> \<not> str_contains ''Inflation'' indicator \<longrightarrow>
      raw_values rnd indicator years g = (level_values 200 (enumerate 0 years), g)) \<and>
   (str_contains ''GDP'' indicator \<and> \<not> str_contains ''growth'' indicator \<and>
    \<not> str_contains ''Inflation'' indicator \<longrightarrow>
      raw_values rnd indicator years g = (level_values 1 (enumerate 0 years), g)) \<and>
   raw_values rnd ''gdp growth'' years g = (level_values 200 (enumerate 0 years), g)"
  by (simp add: raw_values_def)

text \<open>
  A name that matches all three words once it is lower-cased, a name with
  \<^verbatim>\<open>Growth\<close> capitalised, and the name of the claim.
\<close>

theorem case_sensitive_fallthrough_witness:
  "str_contains ''gdp'' (lower ''Gdp Growth and INFLATION'') \<and>
   str_contains ''growth'' (lower ''Gdp Growth and INFLATION'') \<and>
   str_contains ''inflation'' (lower ''Gdp Growth and INFLATION'') \<and>
   raw_values counter_random ''Gdp Growth and INFLATION'' [2021, 2022, 2023] 4 =
     (Inr [Fin 200, Fin 206, Fin 212.18], 4) \<and>
   raw_values counter_random ''GDP Growth (annual %)'' [2021, 2022, 2023] 4 =
     (Inr [Fin 1, Fin 1.03, Fin 1.0609], 4) \<and>
   raw_values counter_random ''gdp growth'' [2021, 2022, 2023] 4 = (Inr [Fin 200, Fin 206, Fin 212.18], 4) \<and>
   get_sample_data counter_random ''gdp growth'' 2021 2023 4 =
     (Inr \<lparr>year_col = [2021, 2022, 2023], value_col = [Fin 200, Fin 201.8, Fin 204.914]\<rparr>, 4)"
proof -
  have lw: "lower ''Gdp Growth and INFLATION'' = ''gdp growth and inflation''"
    by code_simp
  have lv: "level_values 200 (enumerate 0 [2021, 2022, 2023]) = Inr [Fin 200, Fin 206, Fin 212.18]"
    "level_values 1 (enumerate 0 [2021, 2022, 2023]) = Inr [Fin 1, Fin 1.03, Fin 1.0609]"
    by (simp_all add: float_pow_def float_result_def float_overflow_bound_def power2_eq_square)
  have yrs: "py_range 2021 (2023 + 1) = [2021, 2022, 2023]"
    by (simp add: py_range_def upto_rec1 upto.simps)
  have sm: "smooth [Fin 200, Fin 206, Fin 212.18] = [Fin 200, Fin 201.8, Fin 204.914]"
    by (simp add: smooth_def smooth_step_def upt_conv_Cons float_result_def
        float_overflow_bound_def)
  have r: "raw_values counter_random ''gdp growth'' [2021, 2022, 2023] 4 =
      (Inr [Fin 200, Fin 206, Fin 212.18], 4)"
    using case_sensitive_fallthrough [of "''gdp growth''" counter_random "[2021, 2022, 2023]" 4] lv
    by simp
  have "get_sample_data counter_random ''gdp growth'' 2021 2023 4 =
     (Inr \<lparr>year_col = [2021, 2022, 2023], value_col = [Fin 200, Fin 201.8, Fin 204.914]\<rparr>, 4)"
    using get_sample_data_success [of counter_random "''gdp growth''" 2021 2023 4
        "[Fin 200, Fin 206, Fin 212.18]" 4] r yrs sm
    by simp
  then show ?thesis
    using case_sensitive_fallthrough [of "''Gdp Growth and INFLATION''" counter_random
        "[2021, 2022, 2023]" 4]
      case_sensitive_fallthrough [of "''GDP Growth (annual %)''" counter_random
        "[2021, 2022, 2023]" 4] lv r
    by (simp add: lw)
qed

subsection \<open>C8: an empty range\<close>

text \<open>
  C8. For every indicator name and every range with \<open>end_year < start_year\<close>, the list
  of years is empty, smoothing the empty list leaves it empty, and
  \<^verbatim>\<open>get_sample_data\<close> returns, without raising and without a draw, the frame with no
  points.
\<close>

theorem get_sample_data_empty:
  "end_year < start_year \<Longrightarrow>
     py_range start_year (end_year + 1) = [] \<and>
     smooth [] = [] \<and>
     get_sample_data rnd indicator start_year end_year g =
       (Inr \<lparr>year_col = [], value_col = []\<rparr>, g)"
  by (simp add: py_range_def smooth_def get_sample_data_def raw_values_def DataFrame_def)

theorem get_sample_data_empty_witness:
  "get_sample_data counter_random ''GDP growth (annual %)'' 2023 2015 0 =
     (Inr \<lparr>year_col = [], value_col = []\<rparr>, 0) \<and>
   get_sample_data counter_random ''Inflation, consumer prices (annual %)'' 2016 2015 0 =
     (Inr \<lparr>year_col = [], value_col = []\<rparr>, 0) \<and>
   get_sample_data counter_random ''GDP (current US$)'' 0 (- 30000) 7 =
     (Inr \<lparr>year_col = [], value_col = []\<rparr>, 7)"
  using get_sample_data_empty [of 2015 2023 counter_random "''GDP growth (annual %)''" 0]
    get_sample_data_empty [of 2015 2016 counter_random "''Inflation, consumer prices (annual %)''" 0]
    get_sample_data_empty [of "- 30000" 0 counter_random "''GDP (current US$)''" 7]
  by simp

subsection \<open>C9: the classifier is deterministic\<close>

text \<open>
  C9. As steps of the program, \<^verbatim>\<open>risk_analysis\<close> and \<^verbatim>\<open>generate_outlook\<close> read and
  change nothing of the hidden state: two calls with the same score give the same
  label, tag and outlook sentence whatever the states of the generator in which
  they run, each call leaves the state as it found it, and what a call returns is
  the classification of the score alone.
\<close>

theorem classifier_deterministic:
  "score1 = score2 \<Longrightarrow>
     fst (risk_analysis_call score1 g1) = fst (risk_analysis_call score2 g2) \<and>
     fst (generate_outlook_call score1 g1) = fst (generate_outlook_call score2 g2) \<and>
     snd (risk_analysis_call score1 g1) = g1 \<and>
     snd (generate_outlook_call score1 g1) = g1 \<and>
     fst (risk_analysis_call score1 g1) = risk_analysis score1 \<and>
     fst (generate_outlook_call score1 g1) = generate_outlook score1"
  by (simp add: risk_analysis_call_def generate_outlook_call_def risk_analysis_def
      generate_outlook_def)

text \<open>
  Two calls with the score \<open>6.5\<close>, the second after a risk score and a series have been
  drawn, so that the generator has moved from state \<open>0\<close> to state \<open>4\<close>. The last line
  is the contrast: \<^verbatim>\<open>calculate_risk_score\<close>, a step of the same kind, returns different
  scores in these two states.
\<close>

theorem classifier_deterministic_witness:
  "snd (get_sample_data counter_random ''GDP growth (annual %)'' 2021 2023
          (snd (calculate_risk_score counter_random Map.empty 0))) = 4 \<and>
   risk_analysis_call 6.5 (0::nat) = ((''Medium Risk'', ''risk-medium''), 0) \<and>
   risk_analysis_call (13 / 2) (4::nat) = ((''Medium Risk'', ''risk-medium''), 4) \<and>
   fst (generate_outlook_call 6.5 (0::nat)) = fst (generate_outlook_call (13 / 2) (4::nat)) \<and>
   fst (calculate_risk_score counter_random Map.empty 0) \<noteq>
     fst (calculate_risk_score counter_random Map.empty 4)"
proof -
  have e: "(6.5::real) = 13 / 2" by simp
  have st: "snd (get_sample_data counter_random ''GDP growth (annual %)'' 2021 2023
          (snd (calculate_risk_score counter_random Map.empty 0))) = 4"
    by (simp add: get_sample_data_def raw_values_def DataFrame_def length_smooth
        calculate_risk_score_def counter_random_def py_range_def upto_rec1 upto.simps)
  have m: "risk_analysis 6.5 = (''Medium Risk'', ''risk-medium'')"
    by (simp add: risk_analysis_def)
  have d: "fst (calculate_risk_score counter_random Map.empty 0) \<noteq>
     fst (calculate_risk_score counter_random Map.empty 4)"
    by (simp add: calculate_risk_score_def counter_random_def)
  from classifier_deterministic [OF e, of "0::nat" "4::nat"] classifier_deterministic [OF e [symmetric], of "4::nat" "0::nat"]
  show ?thesis using st m d
    by (simp add: prod_eq_iff)
qed

subsection \<open>C10: bounds on the smoothed values\<close>

text \<open>
  Claim C10 bounds every smoothed value by the smallest and the largest raw value up
  to its position. The program computes the smoothed values in binary64 arithmetic,
  and a rounded weighted mean can fall outside the values it is a mean of. For the
  raw values \<^verbatim>\<open>[3.0, 3.0]\<close>, the rounded loop (and Python) gives
  \<^verbatim>\<open>0.7 * 3.0 + 0.3 * 3.0 = 2.9999999999999996\<close>, which is \<open>3 - 2 ^ - 51\<close>, below the
  minimum \<open>3\<close>:
\<close>

theorem smooth_b64_bound_counterexample:
  "smooth_b64 [3, 3] = [3, 6755399441055743 / 2 ^ 51] \<and>
   smooth_b64 [3, 3] ! 1 < Min (set (take (Suc 1) [3, 3]))"
proof -
  have "smooth_b64 [3, 3] ! 1 = 6755399441055743 / 2 ^ 51"
    by (simp only: smooth_b64_3_3) simp
  moreover have "Min (set (take (Suc 1) [3, 3::real])) = 3" by simp
  ultimately show ?thesis using smooth_b64_3_3 by simp
qed

text \<open>
  C10, amended. The first output value equals the first raw value exactly, with and
  without rounding. When the products and sums of the smoothing pass are exact (no
  rounding) and the raw values are finite floats, every smoothed value is finite and
  lies between the minimum and the maximum of the raw values at the indices \<open>0\<close>
  through its own. For the absolute-level branch, while \<open>base * 1.03 ^ (n - 1)\<close> is
  below the overflow bound for the \<open>n\<close> years of the range, the generator returns the
  smoothed curve \<open>base * 1.03 ^ k\<close>, and, again with exact products and sums, the
  smoothed values are strictly increasing and the value at position \<open>i\<close> is at most
  \<open>base * 1.03 ^ i\<close>. With binary64 rounding the bounds hold only up to the rounding
  error.
\<close>

theorem smoothed_values_bounds:
  "(raw \<noteq> [] \<longrightarrow> smooth raw ! 0 = raw ! 0) \<and>
   (rs \<noteq> [] \<longrightarrow> smooth_b64 rs ! 0 = rs ! 0) \<and>
   ((\<forall>r\<in>set rs. \<bar>r\<bar> < float_overflow_bound) \<and> i < length rs \<longrightarrow>
      (\<exists>s. smooth (map Fin rs) ! i = Fin s \<and>
           Min (set (take (Suc i) rs)) \<le> s \<and> s \<le> Max (set (take (Suc i) rs)))) \<and>
   (\<not> (str_contains ''GDP'' indicator \<and> str_contains ''growth'' indicator) \<and>
    \<not> str_contains ''Inflation'' indicator \<and>
    base = (if str_contains ''GDP'' indicator then 1 else 200) \<and>
    n = nat (end_year - start_year + 1) \<and>
    base * 1.03 ^ (n - 1) < float_overflow_bound \<longrightarrow>
      get_sample_data rnd indicator start_year end_year g =
        (Inr \<lparr>year_col = py_range start_year (end_year + 1),
              value_col = smooth (map (\<lambda>k. Fin (base * 1.03 ^ k)) [0..<n])\<rparr>, g) \<and>
      (\<forall>j<n. \<exists>s. smooth (map (\<lambda>k. Fin (base * 1.03 ^ k)) [0..<n]) ! j = Fin s \<and>
           s \<le> base * 1.03 ^ j) \<and>
      (\<forall>j. Suc j < n \<longrightarrow>
         (\<exists>s t. smooth (map (\<lambda>k. Fin (base * 1.03 ^ k)) [0..<n]) ! j = Fin s \<and>
              smooth (map (\<lambda>k. Fin (base * 1.03 ^ k)) [0..<n]) ! Suc j = Fin t \<and> s < t)))"
proof -
  let ?curve = "map (\<lambda>k. Fin (base * 1.03 ^ k)) [0..<n]"
  have p1: "raw \<noteq> [] \<longrightarrow> smooth raw ! 0 = raw ! 0"
    by (simp add: smooth_nth_0)
  have p2: "rs \<noteq> [] \<longrightarrow> smooth_b64 rs ! 0 = rs ! 0"
    by (simp add: smooth_b64_nth_0)
  have p3: "(\<forall>r\<in>set rs. \<bar>r\<bar> < float_overflow_bound) \<and> i < length rs \<longrightarrow>
      (\<exists>s. smooth (map Fin rs) ! i = Fin s \<and>
           Min (set (take (Suc i) rs)) \<le> s \<and> s \<le> Max (set (take (Suc i) rs)))"
    using smooth_between [of rs i] by blast
  have p4: "get_sample_data rnd indicator start_year end_year g =
        (Inr \<lparr>year_col = py_range start_year (end_year + 1), value_col = smooth ?curve\<rparr>, g) \<and>
      (\<forall>j<n. \<exists>s. smooth ?curve ! j = Fin s \<and> s \<le> base * 1.03 ^ j) \<and>
      (\<forall>j. Suc j < n \<longrightarrow>
         (\<exists>s t. smooth ?curve ! j = Fin s \<and> smooth ?curve ! Suc j = Fin t \<and> s < t))"
    if a: "\<not> (str_contains ''GDP'' indicator \<and> str_contains ''growth'' indicator) \<and>
      \<not> str_contains ''Inflation'' indicator \<and>
      base = (if str_contains ''GDP'' indicator then 1 else 200) \<and>
      n = nat (end_year - start_year + 1) \<and>
      base * 1.03 ^ (n - 1) < float_overflow_bound"
  proof (intro conjI allI impI)
    from a have pos: "0 < base" by auto
    from a have top: "base * 1.03 ^ (n - 1) < float_overflow_bound" by blast
    show "get_sample_data rnd indicator start_year end_year g =
        (Inr \<lparr>year_col = py_range start_year (end_year + 1), value_col = smooth ?curve\<rparr>, g)"
      using get_sample_data_level [of indicator base n end_year start_year rnd g] a by blast
    show "\<exists>s. smooth ?curve ! j = Fin s \<and> s \<le> base * 1.03 ^ j" if "j < n" for j
      using smooth_curve [OF pos top that] by blast
    show "\<exists>s t. smooth ?curve ! j = Fin s \<and> smooth ?curve ! Suc j = Fin t \<and> s < t"
      if "Suc j < n" for j
      using smooth_curve_increasing [OF pos top that] by blast
  qed
  show ?thesis
    by (intro conjI) (rule p1, rule p2, rule p3, rule impI, rule p4, assumption)
qed

text \<open>
  Four raw values that go up and down, and the series of \<^verbatim>\<open>GDP (current US$)\<close> for 2021
  to 2023.
\<close>

theorem smoothed_values_bounds_witness:
  "smooth [Fin 3, Fin 1, Fin 5, Fin 2] ! 0 = Fin 3 \<and>
   smooth_b64 [3, 1, 5, 2] ! 0 = 3 \<and>
   (\<exists>s. smooth [Fin 3, Fin 1, Fin 5, Fin 2] ! 2 = Fin s \<and> 1 \<le> s \<and> s \<le> 5) \<and>
   get_sample_data counter_random ''GDP (current US$)'' 2021 2023 0 =
     (Inr \<lparr>year_col = [2021, 2022, 2023],
           value_col = smooth [Fin 1, Fin 1.03, Fin 1.0609]\<rparr>, 0) \<and>
   (\<exists>s t. smooth [Fin 1, Fin 1.03, Fin 1.0609] ! 1 = Fin s \<and>
      smooth [Fin 1, Fin 1.03, Fin 1.0609] ! 2 = Fin t \<and> s < t \<and> t \<le> 1.0609)"
proof -
  note t = smoothed_values_bounds [where raw = "[Fin 3, Fin 1, Fin 5, Fin 2]"
      and rs = "[3, 1, 5, 2]" and i = 2 and indicator = "''GDP (current US$)''"
      and base = 1 and n = 3 and start_year = 2021 and end_year = 2023
      and rnd = counter_random and g = 0]
  have h1: "(\<forall>r\<in>set [3, 1, 5, 2::real]. \<bar>r\<bar> < float_overflow_bound) \<and>
      (2::nat) < length [3, 1, 5, 2::real]"
    by (simp add: float_overflow_bound_def)
  have h2: "\<not> (str_contains ''GDP'' ''GDP (current US$)'' \<and>
        str_contains ''growth'' ''GDP (current US$)'') \<and>
      \<not> str_contains ''Inflation'' ''GDP (current US$)'' \<and>
      (1::real) = (if str_contains ''GDP'' ''GDP (current US$)'' then 1 else 200) \<and>
      (3::nat) = nat (2023 - 2021 + 1) \<and>
      (1::real) * 1.03 ^ (3 - 1) < float_overflow_bound"
    by (simp add: float_overflow_bound_def power2_eq_square)
  have mm: "Min (set (take (Suc 2) [3, 1, 5, 2::real])) = 1"
    "Max (set (take (Suc 2) [3, 1, 5, 2::real])) = 5"
    by simp_all
  have curve: "map (\<lambda>k. Fin (1 * 1.03 ^ k)) [0..<3] = [Fin 1, Fin 1.03, Fin 1.0609]"
    by (simp add: upt_conv_Cons power2_eq_square)
  have yrs: "py_range 2021 (2023 + 1) = [2021, 2022, 2023]"
    by (simp add: py_range_def upto_rec1 upto.simps)
  from t have a: "smooth [Fin 3, Fin 1, Fin 5, Fin 2] ! 0 = Fin 3"
    and b: "smooth_b64 [3, 1, 5, 2] ! 0 = 3"
    by simp_all
  from t h1 have "\<exists>s. smooth (map Fin [3, 1, 5, 2]) ! 2 = Fin s \<and>
      Min (set (take (Suc 2) [3, 1, 5, 2])) \<le> s \<and> s \<le> Max (set (take (Suc 2) [3, 1, 5, 2]))"
    by blast
  then have c: "\<exists>s. smooth [Fin 3, Fin 1, Fin 5, Fin 2] ! 2 = Fin s \<and> 1 \<le> s \<and> s \<le> 5"
    by (simp only: mm) simp
  from t h2 have d0: "get_sample_data counter_random ''GDP (current US$)'' 2021 2023 0 =
        (Inr \<lparr>year_col = py_range 2021 (2023 + 1),
              value_col = smooth (map (\<lambda>k. Fin (1 * 1.03 ^ k)) [0..<3])\<rparr>, 0)"
    and e0: "\<forall>j<3. \<exists>s. smooth (map (\<lambda>k. Fin (1 * 1.03 ^ k)) [0..<3]) ! j = Fin s \<and>
           s \<le> 1 * 1.03 ^ j"
    and f0: "\<forall>j. Suc j < 3 \<longrightarrow>
         (\<exists>s t. smooth (map (\<lambda>k. Fin (1 * 1.03 ^ k)) [0..<3]) ! j = Fin s \<and>
              smooth (map (\<lambda>k. Fin (1 * 1.03 ^ k)) [0..<3]) ! Suc j = Fin t \<and> s < t)"
    by blast+
  have d: "get_sample_data counter_random ''GDP (current US$)'' 2021 2023 0 =
     (Inr \<lparr>year_col = [2021, 2022, 2023],
           value_col = smooth [Fin 1, Fin 1.03, Fin 1.0609]\<rparr>, 0)"
    using d0 by (simp only: curve yrs)
  obtain s u where su: "smooth [Fin 1, Fin 1.03, Fin 1.0609] ! 1 = Fin s"
      "smooth [Fin 1, Fin 1.03, Fin 1.0609] ! Suc 1 = Fin u" "s < u"
    using f0 [rule_format, of 1] by (simp only: curve) auto
  obtain v where v: "smooth [Fin 1, Fin 1.03, Fin 1.0609] ! 2 = Fin v" "v \<le> 1 * 1.03 ^ 2"
    using e0 [rule_format, of 2] by (simp only: curve) auto
  have "v \<le> 1.0609" using v(2) by (simp add: power2_eq_square)
  moreover have "u = v" using su(2) v(1) by (simp add: eval_nat_numeral)
  ultimately have e: "\<exists>s t. smooth [Fin 1, Fin 1.03, Fin 1.0609] ! 1 = Fin s \<and>
      smooth [Fin 1, Fin 1.03, Fin 1.0609] ! 2 = Fin t \<and> s < t \<and> t \<le> 1.0609"
    using su(1,3) v(1) by blast
  show ?thesis using a b c d e by blast
qed

end
